theory Spec2Isabelle
  imports Main "HOL-Library.Word" "HOL-Library.Sublist"
begin

unbundle bit_operations_syntax

section \<open>JavaScript strings\<close>

text \<open>
  A JavaScript string is a sequence of UTF-16 code units. The component stores such
  strings in \<open>localStorage\<close> and the default author name of a comment is a Hangul
  literal, so code units are modelled as 16-bit words, not as bytes.
\<close>

type_synonym code_unit = "16 word"
type_synonym jstring = "code_unit list"

definition ustr :: "string \<Rightarrow> jstring" where
  \<comment> \<open>an ASCII literal of the source as code units\<close>
  "ustr s = map of_char s"

abbreviation U :: "char \<Rightarrow> code_unit" where
  "U c \<equiv> of_char c"

definition is_js_space :: "code_unit \<Rightarrow> bool" where
  \<comment> \<open>WhiteSpace and LineTerminator of ECMAScript, the units \<open>String.prototype.trim\<close> strips\<close>
  "is_js_space c \<longleftrightarrow>
     c \<in> set [0x09, 0x0A, 0x0B, 0x0C, 0x0D, 0x20, 0xA0, 0x1680, 0x2028, 0x2029,
               0x202F, 0x205F, 0x3000, 0xFEFF]
     \<or> (0x2000 \<le> c \<and> c \<le> 0x200A)"

definition trim :: "jstring \<Rightarrow> jstring" where
  "trim s = rev (dropWhile is_js_space (rev (dropWhile is_js_space s)))"

fun decimal :: "nat \<Rightarrow> jstring" where
  \<comment> \<open>\<open>String(n)\<close> for an array index \<open>n\<close>\<close>
  "decimal n = (if n < 10 then [0x30 + of_nat n]
                else decimal (n div 10) @ [0x30 + of_nat (n mod 10)])"

section \<open>JSON values\<close>

text \<open>
  The values \<open>JSON.parse\<close> can return. An object is the list of its own properties
  in the order JavaScript enumerates them: array-index keys first, ascending, then the
  other keys in insertion order, every key once. A number is a double: \<open>Finite m e\<close>
  is \<open>m * 2 ^ e\<close> with \<open>m\<close> odd, \<open>Finite 0 0\<close> is zero, and \<open>NegZero\<close> and the two
  infinities are the other values \<open>JSON.parse\<close> can produce.
\<close>

datatype jsnum = Finite int int | NegZero | PosInf | NegInf

datatype json =
    JNull
  | JBool bool
  | JNum jsnum
  | JStr jstring
  | JArr "json list"
  | JObj "(jstring \<times> json) list"

datatype js_error = SyntaxError | TypeError

definition is_digit :: "code_unit \<Rightarrow> bool" where
  "is_digit c \<longleftrightarrow> 0x30 \<le> c \<and> c \<le> 0x39"

definition dec_value :: "jstring \<Rightarrow> int" where
  "dec_value s = foldl (\<lambda>n c. 10 * n + uint (c - 0x30)) 0 s"

subsection \<open>Numbers\<close>

text \<open>
  Reading a number literal rounds its decimal value to the nearest double, ties to the
  even mantissa; values beyond the finite range become an infinity. Writing a number
  takes the shortest decimal digits that read back as the same double, the closest ones
  when several do, laid out as \<open>Number.prototype.toString\<close> does; an infinity is
  written \<open>null\<close>.
\<close>

function bit_length :: "int \<Rightarrow> int" where
  "bit_length n = (if n \<le> 0 then 0 else 1 + bit_length (n div 2))"
  by pat_completeness auto
termination
  by (relation "measure nat") auto

function odd_part :: "int \<Rightarrow> int \<Rightarrow> int \<times> int" where
  "odd_part m e = (if m \<le> 0 \<or> odd m then (m, e) else odd_part (m div 2) (e + 1))"
  by pat_completeness auto
termination
  by (relation "measure (\<lambda>(m, e). nat m)") auto

definition round_half_even :: "int \<Rightarrow> int \<Rightarrow> int" where
  "round_half_even n d =
     (let q = n div d; r = n mod d
      in if 2 * r > d \<or> (2 * r = d \<and> odd q) then q + 1 else q)"

definition nearest_double :: "int \<Rightarrow> int \<Rightarrow> (int \<times> int) option" where
  "nearest_double num den =
     (let est = bit_length num - bit_length den;
          fl = (if (if 0 \<le> est then den * 2 ^ nat est \<le> num else den \<le> num * 2 ^ nat (- est))
                then est else est - 1);
          e = max (fl - 52) (- 1074);
          m = (if 0 \<le> e then round_half_even num (den * 2 ^ nat e)
               else round_half_even (num * 2 ^ nat (- e)) den)
      in if m = 0 then Some (0, 0)
         else if 1024 < bit_length m + e then None
         else Some (odd_part m e))"

definition number_value :: "jstring \<Rightarrow> jsnum" where
  "number_value s =
     (let neg = (s \<noteq> [] \<and> hd s = U CHR ''-'');
          body = (if neg then tl s else s);
          ip = takeWhile is_digit body;
          r1 = dropWhile is_digit body;
          dot = (r1 \<noteq> [] \<and> hd r1 = U CHR ''.'');
          fp = (if dot then takeWhile is_digit (tl r1) else []);
          r2 = (if dot then dropWhile is_digit (tl r1) else r1);
          ex = (case r2 of
                  [] \<Rightarrow> 0
                | _ # r \<Rightarrow>
                    (case r of
                       [] \<Rightarrow> 0
                     | c # ds \<Rightarrow> if c = U CHR ''-'' then - dec_value ds
                                 else if c = U CHR ''+'' then dec_value ds
                                 else dec_value r));
          d = dec_value (ip @ fp);
          p = ex - int (length fp)
      in if d = 0 then (if neg then NegZero else Finite 0 0)
         else case (if 0 \<le> p then nearest_double (d * 10 ^ nat p) 1
                    else nearest_double d (10 ^ nat (- p))) of
                None \<Rightarrow> if neg then NegInf else PosInf
              | Some (m, e) \<Rightarrow>
                  if m = 0 then (if neg then NegZero else Finite 0 0)
                  else Finite (if neg then - m else m) e)"

function digits :: "int \<Rightarrow> jstring" where
  "digits n = (if n < 10 then [0x30 + word_of_int n]
               else digits (n div 10) @ [0x30 + word_of_int (n mod 10)])"
  by pat_completeness auto
termination
  by (relation "measure nat") auto

definition magnitude :: "int \<Rightarrow> int \<Rightarrow> int" where
  "magnitude num den =
     (if den \<le> num then int (length (digits (num div den)))
      else 1 - int (length (digits ((den + num - 1) div num - 1))))"

definition scaled :: "int \<Rightarrow> int \<Rightarrow> int \<Rightarrow> int \<times> int" where
  "scaled num den p = (if 0 \<le> p then (num * 10 ^ nat p, den) else (num, den * 10 ^ nat (- p)))"

definition reads_back :: "int \<times> int \<Rightarrow> int \<Rightarrow> int \<Rightarrow> bool" where
  "reads_back x s p = (case scaled s 1 p of (a, b) \<Rightarrow> nearest_double a b = Some x)"

fun shortest :: "nat \<Rightarrow> int \<Rightarrow> int \<times> int \<Rightarrow> int \<Rightarrow> int \<Rightarrow> int \<Rightarrow> int \<times> int \<times> int" where
  "shortest fuel k x num den n =
     (case scaled num den (k - n) of
        (a, b) \<Rightarrow>
          let lo = a div b; r = a mod b; hi = lo + 1;
              ok_lo = reads_back x lo (n - k);
              ok_hi = (r \<noteq> 0 \<and> reads_back x hi (n - k));
              up = (if hi < 10 ^ nat k then (hi, k, n) else (10 ^ nat (k - 1), k, n + 1))
          in if ok_lo \<and> ok_hi then
               (if 2 * r < b \<or> (2 * r = b \<and> even lo) then (lo, k, n) else up)
             else if ok_lo then (lo, k, n)
             else if ok_hi then up
             else (case fuel of 0 \<Rightarrow> (lo, k, n) | Suc f \<Rightarrow> shortest f (k + 1) x num den n))"

definition number_text :: "int \<Rightarrow> int \<Rightarrow> int \<Rightarrow> jstring" where
  "number_text s k n =
     (let ds = digits s
      in if k \<le> n \<and> n \<le> 21 then ds @ replicate (nat (n - k)) 0x30
         else if 0 < n \<and> n \<le> 21 then take (nat n) ds @ U CHR ''.'' # drop (nat n) ds
         else if - 6 < n \<and> n \<le> 0 then [0x30, U CHR ''.''] @ replicate (nat (- n)) 0x30 @ ds
         else (if k = 1 then ds else hd ds # U CHR ''.'' # tl ds)
              @ [U CHR ''e'', if n - 1 < 0 then U CHR ''-'' else U CHR ''+'']
              @ digits (abs (n - 1)))"

definition number_to_string :: "int \<Rightarrow> int \<Rightarrow> jstring" where
  "number_to_string m e =
     (let num = (if 0 \<le> e then m * 2 ^ nat e else m);
          den = (if 0 \<le> e then 1 else 2 ^ nat (- e))
      in case shortest 16 1 (m, e) num den (magnitude num den) of
           (s, k, n) \<Rightarrow> number_text s k n)"

fun stringify_number :: "jsnum \<Rightarrow> jstring" where
  "stringify_number (Finite m e) =
     (if m = 0 then [0x30]
      else if m < 0 then U CHR ''-'' # number_to_string (- m) e
      else number_to_string m e)"
| "stringify_number NegZero = [0x30]"
| "stringify_number PosInf = ustr ''null''"
| "stringify_number NegInf = ustr ''null''"

declare bit_length.simps [simp del]
declare odd_part.simps [simp del]
declare digits.simps [simp del]
declare shortest.simps [simp del]

subsection \<open>Objects\<close>

definition array_index :: "jstring \<Rightarrow> int option" where
  \<comment> \<open>a canonical numeric string below \<open>2^32 - 1\<close> is an array index\<close>
  "array_index k =
     (if k \<noteq> [] \<and> list_all is_digit k \<and> (k = [0x30] \<or> hd k \<noteq> 0x30)
         \<and> dec_value k < 4294967295
      then Some (dec_value k) else None)"

fun insert_index :: "int \<Rightarrow> jstring \<Rightarrow> json \<Rightarrow> (jstring \<times> json) list \<Rightarrow> (jstring \<times> json) list" where
  "insert_index n k v [] = [(k, v)]"
| "insert_index n k v ((k', v') # kvs) =
     (case array_index k' of
        Some m \<Rightarrow> if m < n then (k', v') # insert_index n k v kvs
                  else (k, v) # (k', v') # kvs
      | None \<Rightarrow> (k, v) # (k', v') # kvs)"

definition obj_set :: "jstring \<Rightarrow> json \<Rightarrow> (jstring \<times> json) list \<Rightarrow> (jstring \<times> json) list" where
  \<comment> \<open>define or overwrite an own data property: an existing key keeps its place\<close>
  "obj_set k v kvs =
     (if k \<in> fst ` set kvs then map (\<lambda>(k', v'). if k' = k then (k', v) else (k', v')) kvs
      else case array_index k of
             None \<Rightarrow> kvs @ [(k, v)]
           | Some n \<Rightarrow> insert_index n k v kvs)"

subsection \<open>\<open>JSON.stringify\<close>\<close>

definition hexd :: "code_unit \<Rightarrow> code_unit" where
  \<comment> \<open>the lower-case hexadecimal digit of a value below 16\<close>
  "hexd n = (if n < 10 then 0x30 + n else 0x57 + n)"

definition unicode_escape :: "code_unit \<Rightarrow> jstring" where
  "unicode_escape c =
     [0x5C, U CHR ''u'', hexd (drop_bit 12 c), hexd (take_bit 4 (drop_bit 8 c)),
      hexd (take_bit 4 (drop_bit 4 c)), hexd (take_bit 4 c)]"

definition is_lead :: "code_unit \<Rightarrow> bool" where
  "is_lead c \<longleftrightarrow> 0xD800 \<le> c \<and> c \<le> 0xDBFF"

definition is_trail :: "code_unit \<Rightarrow> bool" where
  "is_trail c \<longleftrightarrow> 0xDC00 \<le> c \<and> c \<le> 0xDFFF"

fun quote_units :: "jstring \<Rightarrow> jstring" where
  \<comment> \<open>QuoteJSONString without the enclosing quotes; \<open>0x5C\<close> is the backslash\<close>
  "quote_units [] = []"
| "quote_units (c # cs) =
     (if c = 0x08 then [0x5C, U CHR ''b''] @ quote_units cs
      else if c = 0x09 then [0x5C, U CHR ''t''] @ quote_units cs
      else if c = 0x0A then [0x5C, U CHR ''n''] @ quote_units cs
      else if c = 0x0C then [0x5C, U CHR ''f''] @ quote_units cs
      else if c = 0x0D then [0x5C, U CHR ''r''] @ quote_units cs
      else if c = 0x22 then [0x5C, 0x22] @ quote_units cs
      else if c = 0x5C then [0x5C, 0x5C] @ quote_units cs
      else if c < 0x20 then unicode_escape c @ quote_units cs
      else if is_lead c then
        (case cs of
           [] \<Rightarrow> unicode_escape c
         | d # ds \<Rightarrow> if is_trail d then c # d # quote_units ds
                     else unicode_escape c @ quote_units cs)
      else if is_trail c then unicode_escape c @ quote_units cs
      else c # quote_units cs)"

definition quote :: "jstring \<Rightarrow> jstring" where
  "quote s = 0x22 # quote_units s @ [0x22]"

fun separated :: "'a \<Rightarrow> 'a list list \<Rightarrow> 'a list" where
  "separated sep [] = []"
| "separated sep (x # xs) = sep # x @ separated sep xs"

fun commas :: "'a \<Rightarrow> 'a list list \<Rightarrow> 'a list" where
  \<comment> \<open>the members of a list, a separator before each but the first\<close>
  "commas sep [] = []"
| "commas sep (x # xs) = x @ separated sep xs"

fun JSON_stringify :: "json \<Rightarrow> jstring" where
  "JSON_stringify JNull = ustr ''null''"
| "JSON_stringify (JBool b) = (if b then ustr ''true'' else ustr ''false'')"
| "JSON_stringify (JNum n) = stringify_number n"
| "JSON_stringify (JStr s) = quote s"
| "JSON_stringify (JArr xs) = U CHR ''['' # commas (U CHR '','') (map JSON_stringify xs) @ [U CHR '']'']"
| "JSON_stringify (JObj kvs) =
     U CHR ''{''
       # commas (U CHR '','') (map (\<lambda>(k, v). quote k @ U CHR '':'' # JSON_stringify v) kvs)
       @ [U CHR ''}'']"

subsection \<open>\<open>JSON.parse\<close>: the lexer\<close>

datatype token =
    TLBrace | TRBrace | TLBrack | TRBrack | TColon | TComma
  | TString jstring | TNumber jstring | TTrue | TFalse | TNull

definition hex_val :: "code_unit \<Rightarrow> code_unit option" where
  "hex_val c =
     (if 0x30 \<le> c \<and> c \<le> 0x39 then Some (c - 0x30)
      else if 0x61 \<le> c \<and> c \<le> 0x66 then Some (c - 0x57)
      else if 0x41 \<le> c \<and> c \<le> 0x46 then Some (c - 0x37)
      else None)"

definition hex4 :: "code_unit \<Rightarrow> code_unit \<Rightarrow> code_unit \<Rightarrow> code_unit \<Rightarrow> code_unit option" where
  "hex4 a b c d =
     (case (hex_val a, hex_val b, hex_val c, hex_val d) of
        (Some h3, Some h2, Some h1, Some h0) \<Rightarrow>
          Some (push_bit 12 h3 OR push_bit 8 h2 OR push_bit 4 h1 OR h0)
      | _ \<Rightarrow> None)"

definition simple_escape :: "code_unit \<Rightarrow> code_unit option" where
  \<comment> \<open>the unit a one-letter escape stands for\<close>
  "simple_escape e =
     (if e = 0x22 then Some 0x22
      else if e = 0x5C then Some 0x5C
      else if e = U CHR ''/'' then Some (U CHR ''/'')
      else if e = U CHR ''b'' then Some 0x08
      else if e = U CHR ''f'' then Some 0x0C
      else if e = U CHR ''n'' then Some 0x0A
      else if e = U CHR ''r'' then Some 0x0D
      else if e = U CHR ''t'' then Some 0x09
      else None)"

definition digits1 :: "jstring \<Rightarrow> bool" where
  "digits1 s \<longleftrightarrow> s \<noteq> [] \<and> list_all is_digit s"

definition exp_ok :: "jstring \<Rightarrow> bool" where
  "exp_ok r =
     (case r of
        [] \<Rightarrow> True
      | e # r' \<Rightarrow> (e = U CHR ''e'' \<or> e = U CHR ''E'') \<and>
          (case r' of
             [] \<Rightarrow> False
           | s # r'' \<Rightarrow> if s = U CHR ''+'' \<or> s = U CHR ''-'' then digits1 r'' else digits1 r'))"

definition frac_exp_ok :: "jstring \<Rightarrow> bool" where
  "frac_exp_ok r =
     (case r of
        [] \<Rightarrow> True
      | c # r' \<Rightarrow> if c = U CHR ''.''
                  then takeWhile is_digit r' \<noteq> [] \<and> exp_ok (dropWhile is_digit r')
                  else exp_ok r)"

definition unsigned_ok :: "jstring \<Rightarrow> bool" where
  "unsigned_ok s =
     (let ip = takeWhile is_digit s
      in (ip = [0x30] \<or> (ip \<noteq> [] \<and> hd ip \<noteq> 0x30)) \<and> frac_exp_ok (dropWhile is_digit s))"

definition valid_number :: "jstring \<Rightarrow> bool" where
  \<comment> \<open>the JSON number grammar: \<open>-? int frac? exp?\<close>\<close>
  "valid_number s =
     (case s of
        [] \<Rightarrow> False
      | c # r \<Rightarrow> if c = U CHR ''-'' then unsigned_ok r else unsigned_ok s)"

definition is_num_unit :: "code_unit \<Rightarrow> bool" where
  "is_num_unit c \<longleftrightarrow>
     is_digit c \<or> c = U CHR ''-'' \<or> c = U CHR ''+'' \<or> c = U CHR ''.''
     \<or> c = U CHR ''e'' \<or> c = U CHR ''E''"

definition is_json_ws :: "code_unit \<Rightarrow> bool" where
  "is_json_ws c \<longleftrightarrow> c = 0x20 \<or> c = 0x09 \<or> c = 0x0A \<or> c = 0x0D"

definition cons_tok :: "token \<Rightarrow> token list option \<Rightarrow> token list option" where
  "cons_tok t r = map_option (Cons t) r"

fun lex :: "jstring \<Rightarrow> token list option"
  and lex_string :: "jstring \<Rightarrow> jstring \<Rightarrow> token list option"
  and lex_number :: "jstring \<Rightarrow> jstring \<Rightarrow> token list option"
where
  "lex [] = Some []"
| "lex (c # cs) =
     (if is_json_ws c then lex cs
      else if c = U CHR ''{'' then cons_tok TLBrace (lex cs)
      else if c = U CHR ''}'' then cons_tok TRBrace (lex cs)
      else if c = U CHR ''['' then cons_tok TLBrack (lex cs)
      else if c = U CHR '']'' then cons_tok TRBrack (lex cs)
      else if c = U CHR '':'' then cons_tok TColon (lex cs)
      else if c = U CHR '','' then cons_tok TComma (lex cs)
      else if c = 0x22 then lex_string [] cs
      else if c = U CHR ''-'' \<or> is_digit c then lex_number [c] cs
      else if c = U CHR ''t'' then
        (case cs of
           r # u # e # rest \<Rightarrow>
             if r = U CHR ''r'' \<and> u = U CHR ''u'' \<and> e = U CHR ''e''
             then cons_tok TTrue (lex rest) else None
         | _ \<Rightarrow> None)
      else if c = U CHR ''f'' then
        (case cs of
           a # l # s # e # rest \<Rightarrow>
             if a = U CHR ''a'' \<and> l = U CHR ''l'' \<and> s = U CHR ''s'' \<and> e = U CHR ''e''
             then cons_tok TFalse (lex rest) else None
         | _ \<Rightarrow> None)
      else if c = U CHR ''n'' then
        (case cs of
           u # l # l' # rest \<Rightarrow>
             if u = U CHR ''u'' \<and> l = U CHR ''l'' \<and> l' = U CHR ''l''
             then cons_tok TNull (lex rest) else None
         | _ \<Rightarrow> None)
      else None)"
| "lex_string acc [] = None"
| "lex_string acc (c # cs) =
     (if c = 0x22 then cons_tok (TString (rev acc)) (lex cs)
      else if c = 0x5C then
        (case cs of
           [] \<Rightarrow> None
         | e # es \<Rightarrow>
             if e = U CHR ''u'' then
               (case es of
                  h3 # h2 # h1 # h0 # rest \<Rightarrow>
                    (case hex4 h3 h2 h1 h0 of
                       None \<Rightarrow> None
                     | Some u \<Rightarrow> lex_string (u # acc) rest)
                | _ \<Rightarrow> None)
             else
               (case simple_escape e of
                  None \<Rightarrow> None
                | Some u \<Rightarrow> lex_string (u # acc) es))
      else if c < 0x20 then None
      else lex_string (c # acc) cs)"
| "lex_number acc [] =
     (if valid_number (rev acc) then Some [TNumber (rev acc)] else None)"
| "lex_number acc (c # cs) =
     (if is_num_unit c then lex_number (c # acc) cs
      else if valid_number (rev acc) then cons_tok (TNumber (rev acc)) (lex (c # cs))
      else None)"

subsection \<open>\<open>JSON.parse\<close>: the parser\<close>

text \<open>
  The grammar is checked by a stack machine over the tokens: a frame is an array or an
  object under construction, the mode says which tokens may come next.
\<close>

datatype frame =
    ArrF "json list"
  | ObjF "(jstring \<times> json) list" "jstring option"

datatype mode =
    PValue | PFirstElem | PFirstKey | PKey | PColon | PAfter | PDone json

type_synonym config = "mode \<times> frame list"

fun after_value :: "json \<Rightarrow> frame list \<Rightarrow> config option" where
  "after_value v [] = Some (PDone v, [])"
| "after_value v (ArrF xs # st) = Some (PAfter, ArrF (xs @ [v]) # st)"
| "after_value v (ObjF kvs (Some k) # st) = Some (PAfter, ObjF (obj_set k v kvs) None # st)"
| "after_value v (ObjF kvs None # st) = None"

fun start_value :: "token \<Rightarrow> frame list \<Rightarrow> config option" where
  "start_value (TString s) st = after_value (JStr s) st"
| "start_value (TNumber n) st = after_value (JNum (number_value n)) st"
| "start_value TTrue st = after_value (JBool True) st"
| "start_value TFalse st = after_value (JBool False) st"
| "start_value TNull st = after_value JNull st"
| "start_value TLBrack st = Some (PFirstElem, ArrF [] # st)"
| "start_value TLBrace st = Some (PFirstKey, ObjF [] None # st)"
| "start_value _ st = None"

fun close_array :: "frame list \<Rightarrow> config option" where
  "close_array (ArrF xs # st) = after_value (JArr xs) st"
| "close_array _ = None"

fun close_object :: "frame list \<Rightarrow> config option" where
  "close_object (ObjF kvs None # st) = after_value (JObj kvs) st"
| "close_object _ = None"

fun read_key :: "jstring \<Rightarrow> frame list \<Rightarrow> config option" where
  "read_key k (ObjF kvs None # st) = Some (PColon, ObjF kvs (Some k) # st)"
| "read_key k _ = None"

fun step :: "token \<Rightarrow> config \<Rightarrow> config option" where
  "step t (PValue, st) = start_value t st"
| "step t (PFirstElem, st) = (if t = TRBrack then close_array st else start_value t st)"
| "step t (PFirstKey, st) =
     (case t of TRBrace \<Rightarrow> close_object st | TString k \<Rightarrow> read_key k st | _ \<Rightarrow> None)"
| "step t (PKey, st) = (case t of TString k \<Rightarrow> read_key k st | _ \<Rightarrow> None)"
| "step t (PColon, st) = (if t = TColon then Some (PValue, st) else None)"
| "step t (PAfter, st) =
     (case t of
        TComma \<Rightarrow> (case st of ArrF xs # _ \<Rightarrow> Some (PValue, st)
                             | ObjF kvs k # _ \<Rightarrow> Some (PKey, st)
                             | [] \<Rightarrow> None)
      | TRBrack \<Rightarrow> close_array st
      | TRBrace \<Rightarrow> close_object st
      | _ \<Rightarrow> None)"
| "step t (PDone v, st) = None"

fun run :: "token list \<Rightarrow> config \<Rightarrow> config option" where
  "run [] c = Some c"
| "run (t # ts) c = (case step t c of None \<Rightarrow> None | Some c' \<Rightarrow> run ts c')"

definition parse_tokens :: "token list \<Rightarrow> json option" where
  "parse_tokens ts =
     (case run ts (PValue, []) of Some (PDone v, []) \<Rightarrow> Some v | _ \<Rightarrow> None)"

definition JSON_parse :: "jstring \<Rightarrow> json option" where
  \<comment> \<open>\<open>None\<close> is the SyntaxError \<open>JSON.parse\<close> throws\<close>
  "JSON_parse s = (case lex s of None \<Rightarrow> None | Some ts \<Rightarrow> parse_tokens ts)"

section \<open>The comment panel (CommunityDetailComment.vue)\<close>

text \<open>
  The state of one mounted component instance, together with the browser's \<open>localStorage\<close>
  and a log of what the component did to its collaborators (remote calls, dialogs,
  cache writes), oldest first. \<open>userId\<close> and \<open>token\<close> are the refs taken from the
  auth store when the component is set up, \<open>comments\<close> is the ref the setup script
  creates. It holds what came out of \<open>JSON.parse\<close>: the declared element type is
  not checked at run time.
  \<open>localStorage\<close> is a map from keys to strings, so \<open>setItem\<close> always
  succeeds: a full store is not modelled. The dialogs carry fixed Korean messages and
  appear in the log by their kind; an exception no handler catches is logged as
  \<open>Uncaught\<close> and leaves the state as it was.

  An \<open>async\<close> handler is two functions, the part up to the \<open>await\<close> and the part
  that resumes with the settled request, and their composition for a call during which
  nothing else happens.
\<close>

datatype effect =
    CreateCommentCall jstring jstring jstring
  | DeleteCommentCall jstring jstring
  | LoginPrompt
  | RouterPush jstring
  | ConfirmDelete
  | ConsoleError
  | AlertSubmitFailed
  | AlertDeleteFailed
  | SetItem jstring jstring
  | Uncaught js_error

record panel =
  postId :: jstring
  userId :: jstring
  token :: jstring
  submitting :: bool
  value' :: jstring
  comments :: json
  storage :: "jstring \<rightharpoonup> jstring"
  effects :: "effect list"

record create_response =
  response_id :: jstring
  response_comment :: jstring
  response_createdAt :: jstring

datatype 'a settled = Fulfilled 'a | Rejected

datatype 'a suspended = Returned 'a | Awaiting 'a

definition emit :: "effect list \<Rightarrow> panel \<Rightarrow> panel" where
  "emit es st = st\<lparr>effects := effects st @ es\<rparr>"

definition storage_key :: "jstring \<Rightarrow> jstring" where
  "storage_key pid = ustr ''comments_'' @ pid"

definition getStoredComments :: "panel \<Rightarrow> js_error + json" where
  "getStoredComments st =
     (case storage st (storage_key (postId st)) of
        None \<Rightarrow> Inr (JArr [])
      | Some saved \<Rightarrow>
          if saved = [] then Inr (JArr [])
          else (case JSON_parse saved of None \<Rightarrow> Inl SyntaxError | Some v \<Rightarrow> Inr v))"

definition saveCommentsToStorage :: "panel \<Rightarrow> panel" where
  "saveCommentsToStorage st =
     (let k = storage_key (postId st); s = JSON_stringify (comments st)
      in emit [SetItem k s] (st\<lparr>storage := (storage st)(k \<mapsto> s)\<rparr>))"

subsection \<open>The comments ref\<close>

text \<open>
  \<open>comments\<close> is a Vue ref, and \<open>comments.value = x\<close> runs the ref's setter (as of
  Vue 3.5): a value that flags itself as shallow or readonly is stored as it is, any
  other value is replaced by its raw value, which follows an own \<open>__v_raw\<close> property
  for as long as that property is truthy. \<open>comments\<close> in the state is the raw value the
  ref then holds. Reading \<open>comments.value\<close> goes through Vue's reactive proxy; the
  reads below are the plain reads they amount to for values that carry none of the
  properties Vue gives a meaning to (the names starting with \<open>__v_\<close> and
  \<open>hasOwnProperty\<close>), as the comments of the declared type are.
\<close>

definition truthy :: "json \<Rightarrow> bool" where
  "truthy v =
     (case v of
        JNull \<Rightarrow> False
      | JBool b \<Rightarrow> b
      | JNum n \<Rightarrow> n \<noteq> Finite 0 0 \<and> n \<noteq> NegZero
      | JStr s \<Rightarrow> s \<noteq> []
      | _ \<Rightarrow> True)"

definition own_property :: "json \<Rightarrow> jstring \<Rightarrow> json option" where
  \<comment> \<open>\<open>v[name]\<close> for a name that no prototype defines; \<open>None\<close> is \<open>undefined\<close>\<close>
  "own_property v name = (case v of JObj kvs \<Rightarrow> map_of kvs name | _ \<Rightarrow> None)"

definition flagged :: "json \<Rightarrow> jstring \<Rightarrow> bool" where
  \<comment> \<open>\<open>!!(v && v[name])\<close>\<close>
  "flagged v name =
     (truthy v \<and> (case own_property v name of None \<Rightarrow> False | Some x \<Rightarrow> truthy x))"

function toRaw :: "json \<Rightarrow> json" where
  "toRaw v =
     (case own_property v (ustr ''__v_raw'') of
        None \<Rightarrow> v
      | Some raw \<Rightarrow> if truthy v \<and> truthy raw then toRaw raw else v)"
  by pat_completeness auto
termination
proof (relation "measure size")
  show "wf (measure size)" by simp
next
  fix v raw :: json
  assume "own_property v (ustr ''__v_raw'') = Some raw"
  then obtain kvs where v: "v = JObj kvs" and "map_of kvs (ustr ''__v_raw'') = Some raw"
    by (cases v) (simp_all add: own_property_def)
  then have "(ustr ''__v_raw'', raw) \<in> set kvs"
    by (simp add: map_of_SomeD)
  then have "size raw < Suc (size_list (size_prod (\<lambda>_. 0) size) kvs)"
    by (induction kvs) auto
  then show "(raw, v) \<in> measure size"
    using v by simp
qed

declare toRaw.simps [simp del]

definition ref_store :: "json \<Rightarrow> json" where
  "ref_store v =
     (if flagged v (ustr ''__v_isShallow'') \<or> flagged v (ustr ''__v_isReadonly'') then v
      else toRaw v)"


definition watch_postId :: "jstring \<Rightarrow> panel \<Rightarrow> panel" where
  \<comment> \<open>the host sets the prop; the watcher runs only when the value differs\<close>
  "watch_postId newPostId st =
     (if newPostId = postId st then st
      else let st' = st\<lparr>postId := newPostId\<rparr>
           in if newPostId \<noteq> [] then
                (case getStoredComments st' of
                   Inl e \<Rightarrow> emit [Uncaught e] st'
                 | Inr v \<Rightarrow> st'\<lparr>comments := ref_store v\<rparr>)
              else st')"

subsection \<open>Reading properties\<close>

definition get_field :: "json \<Rightarrow> jstring \<Rightarrow> js_error + json option" where
  \<comment> \<open>\<open>c.id\<close> and \<open>c.datetime\<close>: neither name is a built-in property of a
      string, a number, a boolean, an array or \<open>Object.prototype\<close>; \<open>None\<close> is
      \<open>undefined\<close>\<close>
  "get_field c name =
     (case c of
        JNull \<Rightarrow> Inl TypeError
      | JObj kvs \<Rightarrow> Inr (map_of kvs name)
      | _ \<Rightarrow> Inr None)"

definition own_entries :: "json \<Rightarrow> (jstring \<times> json) list" where
  \<comment> \<open>the own enumerable properties an object spread copies\<close>
  "own_entries c =
     (case c of
        JObj kvs \<Rightarrow> kvs
      | JArr xs \<Rightarrow> zip (map decimal [0 ..< length xs]) xs
      | JStr s \<Rightarrow> zip (map decimal [0 ..< length s]) (map (\<lambda>u. JStr [u]) s)
      | _ \<Rightarrow> [])"

fun map_result :: "('a \<Rightarrow> 'e + 'b) \<Rightarrow> 'a list \<Rightarrow> 'e + 'b list" where
  "map_result f [] = Inr []"
| "map_result f (x # xs) =
     (case f x of
        Inl e \<Rightarrow> Inl e
      | Inr y \<Rightarrow> (case map_result f xs of Inl e \<Rightarrow> Inl e | Inr ys \<Rightarrow> Inr (y # ys)))"

fun filter_result :: "('a \<Rightarrow> 'e + bool) \<Rightarrow> 'a list \<Rightarrow> 'e + 'a list" where
  "filter_result p [] = Inr []"
| "filter_result p (x # xs) =
     (case p x of
        Inl e \<Rightarrow> Inl e
      | Inr b \<Rightarrow> (case filter_result p xs of
                    Inl e \<Rightarrow> Inl e
                  | Inr ys \<Rightarrow> Inr (if b then x # ys else ys)))"

subsection \<open>The recurring timer\<close>

definition refresh_interval_ms :: nat where
  "refresh_interval_ms = 60000"

definition with_relativeTime :: "(json option \<Rightarrow> jstring) \<Rightarrow> json \<Rightarrow> js_error + json" where
  \<comment> \<open>\<open>{...comment, relativeTime: dayjs(comment.datetime).locale('ko').fromNow()}\<close>;
      \<open>fromNow\<close> stands for the dayjs call at the time of the tick\<close>
  "with_relativeTime fromNow c =
     (case get_field c (ustr ''datetime'') of
        Inl e \<Rightarrow> Inl e
      | Inr d \<Rightarrow> Inr (JObj (obj_set (ustr ''relativeTime'') (JStr (fromNow d)) (own_entries c))))"

definition tick :: "(json option \<Rightarrow> jstring) \<Rightarrow> panel \<Rightarrow> panel" where
  "tick fromNow st =
     (case comments st of
        JArr xs \<Rightarrow>
          (case map_result (with_relativeTime fromNow) xs of
             Inl e \<Rightarrow> emit [Uncaught e] st
           | Inr ys \<Rightarrow> st\<lparr>comments := ref_store (JArr ys)\<rparr>)
      | _ \<Rightarrow> emit [Uncaught TypeError] st)"

subsection \<open>Writing a comment\<close>

definition default_author :: jstring where
  \<comment> \<open>the two Hangul syllables of the source's fallback name\<close>
  "default_author = [0xC775, 0xBA85]"

definition newComment :: "jstring option \<Rightarrow> create_response \<Rightarrow> json" where
  "newComment fullName response =
     JObj [(ustr ''id'', JStr (response_id response)),
           (ustr ''author'', JStr (case fullName of None \<Rightarrow> default_author | Some n \<Rightarrow> n)),
           (ustr ''avatar'', JStr (ustr ''/images/user-dummy.png'')),
           (ustr ''content'', JStr (response_comment response)),
           (ustr ''datetime'', JStr (response_createdAt response))]"

definition unshift :: "json \<Rightarrow> json \<Rightarrow> js_error + json" where
  "unshift x a = (case a of JArr xs \<Rightarrow> Inr (JArr (x # xs)) | _ \<Rightarrow> Inl TypeError)"

definition handleSubmit_begin :: "panel \<Rightarrow> panel suspended" where
  \<comment> \<open>up to the \<open>await\<close>\<close>
  "handleSubmit_begin st =
     (if trim (value' st) = [] then Returned st
      else if userId st = [] then Returned (emit [LoginPrompt] st)
      else Awaiting (emit [CreateCommentCall (postId st) (value' st) (token st)]
                       (st\<lparr>submitting := True\<rparr>)))"

definition handleSubmit_resume ::
    "jstring option \<Rightarrow> create_response settled \<Rightarrow> panel \<Rightarrow> panel" where
  \<comment> \<open>from the \<open>await\<close> on: \<open>try\<close>, \<open>catch\<close>, \<open>finally\<close>; \<open>fullName\<close> is the auth
      store's name at that moment\<close>
  "handleSubmit_resume fullName outcome st =
     (let st' =
        (case outcome of
           Rejected \<Rightarrow> emit [ConsoleError, AlertSubmitFailed] st
         | Fulfilled response \<Rightarrow>
             (case unshift (newComment fullName response) (comments st) of
                Inl e \<Rightarrow> emit [ConsoleError, AlertSubmitFailed] st
              | Inr cs \<Rightarrow> (saveCommentsToStorage (st\<lparr>comments := cs\<rparr>))\<lparr>value' := []\<rparr>))
      in st'\<lparr>submitting := False\<rparr>)"

definition handleSubmit :: "jstring option \<Rightarrow> create_response settled \<Rightarrow> panel \<Rightarrow> panel" where
  \<comment> \<open>a whole call, nothing else happening while the request is pending\<close>
  "handleSubmit fullName outcome st =
     (case handleSubmit_begin st of
        Returned st' \<Rightarrow> st'
      | Awaiting st' \<Rightarrow> handleSubmit_resume fullName outcome st')"

definition login_onOk :: "panel \<Rightarrow> panel" where
  "login_onOk st = emit [RouterPush (ustr ''/login'')] st"

subsection \<open>Deleting a comment\<close>

definition keeps :: "jstring \<Rightarrow> json \<Rightarrow> js_error + bool" where
  \<comment> \<open>\<open>c.id !== commentId\<close>\<close>
  "keeps commentId c =
     (case get_field c (ustr ''id'') of
        Inl e \<Rightarrow> Inl e
      | Inr v \<Rightarrow> Inr (v \<noteq> Some (JStr commentId)))"

definition handleDelete_begin :: "jstring \<Rightarrow> bool \<Rightarrow> panel \<Rightarrow> panel suspended" where
  \<comment> \<open>\<open>confirmed\<close> is the answer to the \<open>confirm\<close> dialog\<close>
  "handleDelete_begin commentId confirmed st =
     (if \<not> confirmed then Returned (emit [ConfirmDelete] st)
      else Awaiting (emit [ConfirmDelete, DeleteCommentCall commentId (token st)] st))"

definition handleDelete_resume :: "jstring \<Rightarrow> unit settled \<Rightarrow> panel \<Rightarrow> panel" where
  "handleDelete_resume commentId outcome st =
     (case outcome of
        Rejected \<Rightarrow> emit [ConsoleError, AlertDeleteFailed] st
      | Fulfilled _ \<Rightarrow>
          (case comments st of
             JArr xs \<Rightarrow>
               (case filter_result (keeps commentId) xs of
                  Inl e \<Rightarrow> emit [ConsoleError, AlertDeleteFailed] st
                | Inr ys \<Rightarrow> saveCommentsToStorage (st\<lparr>comments := ref_store (JArr ys)\<rparr>))
           | _ \<Rightarrow> emit [ConsoleError, AlertDeleteFailed] st))"

definition handleDelete :: "jstring \<Rightarrow> bool \<Rightarrow> unit settled \<Rightarrow> panel \<Rightarrow> panel" where
  "handleDelete commentId confirmed outcome st =
     (case handleDelete_begin commentId confirmed st of
        Returned st' \<Rightarrow> st'
      | Awaiting st' \<Rightarrow> handleDelete_resume commentId outcome st')"

subsection \<open>Comments of the declared type\<close>

text \<open>
  The element type the source declares for \<open>comments\<close>, with the \<open>relativeTime\<close>
  property the timer adds, and the object such a comment is at run time: the keys in
  the order \<open>handleSubmit\<close> and the timer create them.
\<close>

record Comment =
  comment_id :: jstring
  author :: jstring
  avatar :: jstring
  content :: jstring
  datetime :: jstring
  relativeTime :: "jstring option"

definition comment_json :: "Comment \<Rightarrow> json" where
  "comment_json c =
     JObj ([(ustr ''id'', JStr (comment_id c)),
            (ustr ''author'', JStr (author c)),
            (ustr ''avatar'', JStr (avatar c)),
            (ustr ''content'', JStr (content c)),
            (ustr ''datetime'', JStr (datetime c))]
           @ (case relativeTime c of
                None \<Rightarrow> []
              | Some r \<Rightarrow> [(ustr ''relativeTime'', JStr r)]))"

definition comments_json :: "Comment list \<Rightarrow> json" where
  "comments_json cs = JArr (map comment_json cs)"

subsection \<open>Values that survive the cache\<close>

text \<open>
  \<open>toks\<close> is the token sequence of a value's serialisation. A value is \<open>storable\<close>
  when it holds no number and every object in it lists its properties the way an
  object built property by property does.
\<close>

fun toks :: "json \<Rightarrow> token list" where
  "toks JNull = [TNull]"
| "toks (JBool b) = [if b then TTrue else TFalse]"
| "toks (JNum n) = [TNumber (stringify_number n)]"
| "toks (JStr s) = [TString s]"
| "toks (JArr xs) = TLBrack # commas TComma (map toks xs) @ [TRBrack]"
| "toks (JObj kvs) =
     TLBrace # commas TComma (map (\<lambda>(k, v). TString k # TColon # toks v) kvs) @ [TRBrace]"

definition build_object :: "(jstring \<times> json) list \<Rightarrow> (jstring \<times> json) list \<Rightarrow> (jstring \<times> json) list" where
  "build_object acc kvs = foldl (\<lambda>obj (k, v). obj_set k v obj) acc kvs"

fun storable :: "json \<Rightarrow> bool" where
  "storable JNull = True"
| "storable (JBool b) = True"
| "storable (JNum n) = False"
| "storable (JStr s) = True"
| "storable (JArr xs) = (\<forall>x \<in> set xs. storable x)"
| "storable (JObj kvs) = (build_object [] kvs = kvs \<and> (\<forall>(k, v) \<in> set kvs. storable v))"

text \<open>Continuing a lexer result and a parser run, for the proofs below.\<close>

definition prepend :: "token list \<Rightarrow> token list option \<Rightarrow> token list option" where
  "prepend ts r = map_option ((@) ts) r"

definition then_run :: "token list \<Rightarrow> config option \<Rightarrow> config option" where
  "then_run ts r = (case r of None \<Rightarrow> None | Some c \<Rightarrow> run ts c)"

subsection \<open>A worked example\<close>

text \<open>
  The scenario of the specification's testable property 6: post \<open>42\<close>, an empty
  cache, a user who is logged in, the draft \<open>hello\<close>.
\<close>

definition example_panel :: panel where
  "example_panel =
     \<lparr>postId = ustr ''42'', userId = ustr ''u1'', token = ustr ''secret'',
      submitting = False, value' = ustr ''hello'', comments = JArr [],
      storage = Map.empty, effects = []\<rparr>"

definition example_response :: create_response where
  "example_response =
     \<lparr>response_id = ustr ''c1'', response_comment = ustr ''hello'',
      response_createdAt = ustr ''2024-01-01T00:00:00Z''\<rparr>"

definition example_comment :: Comment where
  "example_comment =
     \<lparr>comment_id = ustr ''c1'', author = ustr ''Alice'',
      avatar = ustr ''/images/user-dummy.png'', content = ustr ''hello'',
      datetime = ustr ''2024-01-01T00:00:00Z'', relativeTime = None\<rparr>"

definition anonymous_blank_panel :: panel where
  "anonymous_blank_panel = example_panel\<lparr>userId := [], value' := ustr ''  ''\<rparr>"

definition second_comment :: Comment where
  "second_comment = example_comment\<lparr>comment_id := ustr ''c2'', content := ustr ''again''\<rparr>"

text \<open>
  Cache entries as the texts they are. \<open>example_entry\<close> is the entry that holds the
  one comment of the example; \<open>example_pending\<close> is the example while its create
  request is pending. The other panels have a cache with entries for two posts, an
  entry that is not JSON, an entry that is a number, and an entry that is an object
  with a \<open>__v_raw\<close> property.
\<close>

definition in_quotes :: "string \<Rightarrow> jstring" where
  "in_quotes s = 0x22 # ustr s @ [0x22]"

definition example_entry :: jstring where
  "example_entry =
     ustr ''[{'' @ in_quotes ''id'' @ ustr '':'' @ in_quotes ''c1'' @ ustr '',''
     @ in_quotes ''author'' @ ustr '':'' @ in_quotes ''Alice'' @ ustr '',''
     @ in_quotes ''avatar'' @ ustr '':'' @ in_quotes ''/images/user-dummy.png'' @ ustr '',''
     @ in_quotes ''content'' @ ustr '':'' @ in_quotes ''hello'' @ ustr '',''
     @ in_quotes ''datetime'' @ ustr '':'' @ in_quotes ''2024-01-01T00:00:00Z'' @ ustr ''}]''"


definition two_posts_panel :: panel where
  "two_posts_panel =
     example_panel\<lparr>comments := comments_json [second_comment],
       storage := [ustr ''comments_42'' \<mapsto> JSON_stringify (comments_json [second_comment]),
                   ustr ''comments_43'' \<mapsto> example_entry]\<rparr>"

definition broken_entry_panel :: panel where
  "broken_entry_panel =
     example_panel\<lparr>comments := comments_json [example_comment],
       storage := [ustr ''comments_42'' \<mapsto> example_entry,
                   ustr ''comments_43'' \<mapsto> ustr ''{'']\<rparr>"




section \<open>\<open>JSON.parse\<close> after \<open>JSON.stringify\<close>\<close>

subsection \<open>Hexadecimal escapes\<close>

lemma take_bit_4_less: "take_bit 4 (x :: code_unit) < 16"
proof -
  have "unat (take_bit 4 x) < 2 ^ 4"
    unfolding unsigned_take_bit_eq by (rule take_bit_nat_less_exp)
  then show ?thesis by (simp add: word_less_nat_alt)
qed

lemma drop_bit_12_less: "drop_bit 12 (x :: code_unit) < 16"
proof -
  have "unat x < 2 ^ 16" using unsigned_less[of x] by simp
  then have "unat x div 2 ^ 12 < 16" by simp
  then have "unat (drop_bit 12 x) < 16"
    by (simp add: unsigned_drop_bit_eq drop_bit_eq_div unat_div)
  then show ?thesis by (simp add: word_less_nat_alt)
qed

lemma nibbles:
  "push_bit 12 (drop_bit 12 c) OR push_bit 8 (take_bit 4 (drop_bit 8 c))
     OR push_bit 4 (take_bit 4 (drop_bit 4 c)) OR take_bit 4 c = (c::code_unit)"
proof (rule bit_word_eqI)
  fix n assume "n < LENGTH(16)"
  show "bit (push_bit 12 (drop_bit 12 c) OR push_bit 8 (take_bit 4 (drop_bit 8 c))
              OR push_bit 4 (take_bit 4 (drop_bit 4 c)) OR take_bit 4 c) n = bit c n"
    using \<open>n < LENGTH(16)\<close>
    by (cases "n < 4"; cases "n < 8"; cases "n < 12") (auto simp: bit_simps)
qed

lemma hex_val_hexd: "n < 16 \<Longrightarrow> hex_val (hexd n) = Some n"
  unfolding hex_val_def hexd_def
  by (auto simp: word_le_nat_alt word_less_nat_alt unat_word_ariths)

lemma hex4_escape:
  "hex4 (hexd (drop_bit 12 c)) (hexd (take_bit 4 (drop_bit 8 c)))
        (hexd (take_bit 4 (drop_bit 4 c))) (hexd (take_bit 4 c)) = Some c"
  by (simp add: hex4_def hex_val_hexd take_bit_4_less drop_bit_12_less nibbles)

lemma lex_string_escape:
  "lex_string acc (unicode_escape c @ rest) = lex_string (c # acc) rest"
  by (simp add: unicode_escape_def hex4_escape)

lemma lex_string_plain:
  "c \<noteq> 0x22 \<Longrightarrow> c \<noteq> 0x5C \<Longrightarrow> \<not> c < 0x20 \<Longrightarrow> lex_string acc (c # cs) = lex_string (c # acc) cs"
  by simp

lemma lead_plain:
  "is_lead c \<Longrightarrow> c \<noteq> 0x08 \<and> c \<noteq> 0x09 \<and> c \<noteq> 0x0A \<and> c \<noteq> 0x0C \<and> c \<noteq> 0x0D
     \<and> c \<noteq> 0x22 \<and> c \<noteq> 0x5C \<and> \<not> c < 0x20"
  by (auto simp: is_lead_def word_le_nat_alt word_less_nat_alt)
lemma trail_plain:
  "is_trail c \<Longrightarrow> c \<noteq> 0x08 \<and> c \<noteq> 0x09 \<and> c \<noteq> 0x0A \<and> c \<noteq> 0x0C \<and> c \<noteq> 0x0D
     \<and> c \<noteq> 0x22 \<and> c \<noteq> 0x5C \<and> \<not> c < 0x20"
  by (auto simp: is_trail_def word_le_nat_alt word_less_nat_alt)

lemma lex_string_close: "lex_string acc (0x22 # cs) = cons_tok (TString (rev acc)) (lex cs)"
  by simp

subsection \<open>Strings\<close>

lemma lex_string_short:
  "lex_string acc (0x5C # 0x62 # es) = lex_string (0x08 # acc) es"
  "lex_string acc (0x5C # 0x74 # es) = lex_string (0x09 # acc) es"
  "lex_string acc (0x5C # 0x6E # es) = lex_string (0x0A # acc) es"
  "lex_string acc (0x5C # 0x66 # es) = lex_string (0x0C # acc) es"
  "lex_string acc (0x5C # 0x72 # es) = lex_string (0x0D # acc) es"
  "lex_string acc (0x5C # 0x22 # es) = lex_string (0x22 # acc) es"
  "lex_string acc (0x5C # 0x5C # es) = lex_string (0x5C # acc) es"
  by (simp_all add: simple_escape_def)

lemma lex_string_quote_units:
  "lex_string acc (quote_units s @ 0x22 # rest) = cons_tok (TString (rev acc @ s)) (lex rest)"
proof (induction "length s" arbitrary: s acc rule: less_induct)
  case less
  note [simp del] = lex_string.simps lex.simps
  show ?case
  proof (cases s)
    case Nil
    then show ?thesis by (simp add: lex_string_close)
  next
    case (Cons c cs)
    have tail: "lex_string acc' (quote_units cs @ 0x22 # rest)
                = cons_tok (TString (rev acc' @ cs)) (lex rest)" for acc'
      using less[of cs acc'] Cons by simp
    consider (short) "c = 0x08 \<or> c = 0x09 \<or> c = 0x0A \<or> c = 0x0C \<or> c = 0x0D \<or> c = 0x22 \<or> c = 0x5C"
      | (control) "\<not> (c = 0x08 \<or> c = 0x09 \<or> c = 0x0A \<or> c = 0x0C \<or> c = 0x0D \<or> c = 0x22 \<or> c = 0x5C)"
          "c < 0x20"
      | (pair) d ds where "is_lead c" "cs = d # ds" "is_trail d"
      | (lone) "is_lead c" "cs = [] \<or> (\<exists>d ds. cs = d # ds \<and> \<not> is_trail d)"
      | (trail) "\<not> is_lead c" "is_trail c"
      | (plain) "c \<noteq> 0x22" "c \<noteq> 0x5C" "\<not> c < 0x20" "\<not> is_lead c" "\<not> is_trail c"
      by (cases cs) auto
    then show ?thesis
    proof cases
      case short
      then show ?thesis
        unfolding Cons by (elim disjE) (simp_all add: lex_string_short tail)
    next
      case control
      then show ?thesis
        unfolding Cons by (simp add: lex_string_escape tail)
    next
      case pair
      have "lex_string (d # c # acc) (quote_units ds @ 0x22 # rest)
            = cons_tok (TString (rev (d # c # acc) @ ds)) (lex rest)"
        using less[of ds "d # c # acc"] Cons pair by simp
      then show ?thesis
        using pair lead_plain[of c] trail_plain[of d]
        unfolding Cons by (simp add: lex_string_plain)
    next
      case lone
      have "quote_units (c # cs) = unicode_escape c @ quote_units cs"
        using lone lead_plain[of c] by (cases cs) auto
      then show ?thesis
        unfolding Cons by (simp add: lex_string_escape tail del: quote_units.simps)
    next
      case trail
      then show ?thesis
        using trail_plain[of c] unfolding Cons by (simp add: lex_string_escape tail)
    next
      case plain
      then have "c \<noteq> 0x08" "c \<noteq> 0x09" "c \<noteq> 0x0A" "c \<noteq> 0x0C" "c \<noteq> 0x0D"
        by (auto simp: word_less_nat_alt)
      then show ?thesis
        using plain unfolding Cons by (simp add: lex_string_plain tail)
    qed
  qed
qed

lemma lex_quote:
  "lex (quote s @ rest) = cons_tok (TString s) (lex rest)"
  using lex_string_quote_units[of "[]" s rest] by (simp add: quote_def is_json_ws_def is_digit_def)

subsection \<open>From the serialisation to its tokens\<close>

lemma cons_tok_append: "cons_tok t r = prepend [t] r"
  by (cases r) (simp_all add: cons_tok_def prepend_def)

lemma prepend_append: "prepend a (prepend b r) = prepend (a @ b) r"
  by (cases r) (simp_all add: prepend_def)

lemma prepend_Nil: "prepend [] r = r"
  by (cases r) (simp_all add: prepend_def)

lemma lex_punct:
  "lex (0x7B # cs) = cons_tok TLBrace (lex cs)"
  "lex (0x7D # cs) = cons_tok TRBrace (lex cs)"
  "lex (0x5B # cs) = cons_tok TLBrack (lex cs)"
  "lex (0x5D # cs) = cons_tok TRBrack (lex cs)"
  "lex (0x3A # cs) = cons_tok TColon (lex cs)"
  "lex (0x2C # cs) = cons_tok TComma (lex cs)"
  by (simp_all add: is_json_ws_def)

lemma lex_keyword:
  "lex (ustr ''null'' @ cs) = cons_tok TNull (lex cs)"
  "lex (ustr ''true'' @ cs) = cons_tok TTrue (lex cs)"
  "lex (ustr ''false'' @ cs) = cons_tok TFalse (lex cs)"
  by (simp_all add: ustr_def is_json_ws_def is_digit_def)

lemma lex_separated:
  assumes "\<And>x rest. x \<in> set xs \<Longrightarrow> lex (f x @ rest) = prepend (g x) (lex rest)"
  shows "lex (separated 0x2C (map f xs) @ rest)
         = prepend (separated TComma (map g xs)) (lex rest)"
  using assms
proof (induction xs)
  case Nil
  show ?case by (simp add: prepend_Nil)
next
  case (Cons x xs)
  have "lex (separated 0x2C (map f (x # xs)) @ rest)
        = prepend [TComma] (lex (f x @ (separated 0x2C (map f xs) @ rest)))"
    by (simp add: lex_punct cons_tok_append del: lex.simps)
  also have "\<dots> = prepend [TComma]
       (prepend (g x) (lex (separated 0x2C (map f xs) @ rest)))"
    using Cons.prems[of x] by simp
  also have "\<dots> = prepend [TComma] (prepend (g x)
       (prepend (separated TComma (map g xs)) (lex rest)))"
    using Cons.IH Cons.prems by simp
  finally show ?case by (simp add: prepend_append)
qed

lemma lex_commas:
  assumes "\<And>x rest. x \<in> set xs \<Longrightarrow> lex (f x @ rest) = prepend (g x) (lex rest)"
  shows "lex (commas 0x2C (map f xs) @ rest)
         = prepend (commas TComma (map g xs)) (lex rest)"
proof (cases xs)
  case Nil
  then show ?thesis by (simp add: prepend_Nil)
next
  case (Cons x ys)
  have tl: "lex (separated 0x2C (map f ys) @ rest)
        = prepend (separated TComma (map g ys)) (lex rest)"
    using lex_separated[of ys f g rest] assms Cons by simp
  have "lex (commas 0x2C (map f xs) @ rest)
        = lex (f x @ (separated 0x2C (map f ys) @ rest))"
    using Cons by simp
  also have "\<dots> = prepend (g x) (lex (separated 0x2C (map f ys) @ rest))"
    using assms[of x] Cons by simp
  finally show ?thesis
    using Cons by (simp add: tl prepend_append)
qed

lemma lex_value:
  "storable v \<Longrightarrow> lex (JSON_stringify v @ rest) = prepend (toks v) (lex rest)"
proof (induction v arbitrary: rest)
  case JNull
  show ?case by (simp add: lex_keyword cons_tok_append del: lex.simps)
next
  case (JBool b)
  show ?case by (simp add: lex_keyword cons_tok_append del: lex.simps)
next
  case (JNum n)
  then show ?case by simp
next
  case (JStr s)
  show ?case by (simp add: lex_quote cons_tok_append del: lex.simps)
next
  case (JArr xs)
  have elems: "lex (JSON_stringify x @ r) = prepend (toks x) (lex r)"
    if "x \<in> set xs" for x r
    using JArr.IH[OF that] JArr.prems that by simp
  have "lex (JSON_stringify (JArr xs) @ rest)
        = prepend [TLBrack] (lex (commas 0x2C (map JSON_stringify xs) @ (0x5D # rest)))"
    by (simp add: lex_punct cons_tok_append del: lex.simps)
  also have "\<dots> = prepend [TLBrack]
       (prepend (commas TComma (map toks xs)) (lex (0x5D # rest)))"
    using lex_commas[of xs JSON_stringify toks "0x5D # rest"] elems by simp
  also have "\<dots> = prepend [TLBrack]
       (prepend (commas TComma (map toks xs)) (prepend [TRBrack] (lex rest)))"
    by (simp add: lex_punct cons_tok_append del: lex.simps)
  finally show ?case by (simp add: prepend_append del: lex.simps)
next
  case (JObj kvs)
  let ?f = "\<lambda>(k, v). quote k @ 0x3A # JSON_stringify v"
  let ?g = "\<lambda>(k, v). TString k # TColon # toks v"
  have elems: "lex (?f kv @ r) = prepend (?g kv) (lex r)"
    if "kv \<in> set kvs" for kv r
  proof -
    obtain k v where kv: "kv = (k, v)" by (cases kv)
    have "storable v" using JObj.prems that kv by auto
    moreover have "v \<in> Basic_BNFs.snds kv" using kv by simp
    ultimately have "lex (JSON_stringify v @ r) = prepend (toks v) (lex r)"
      using JObj.IH[OF that] by blast
    then show ?thesis
      unfolding kv by (simp add: lex_quote lex_punct cons_tok_append prepend_append del: lex.simps)
  qed
  have "lex (JSON_stringify (JObj kvs) @ rest)
        = prepend [TLBrace] (lex (commas 0x2C (map ?f kvs) @ (0x7D # rest)))"
    by (simp add: lex_punct cons_tok_append del: lex.simps)
  also have "\<dots> = prepend [TLBrace]
       (prepend (commas TComma (map ?g kvs)) (lex (0x7D # rest)))"
    using lex_commas[of kvs ?f ?g "0x7D # rest"] elems by simp
  also have "\<dots> = prepend [TLBrace]
       (prepend (commas TComma (map ?g kvs)) (prepend [TRBrace] (lex rest)))"
    by (simp add: lex_punct cons_tok_append del: lex.simps)
  finally show ?case by (simp add: prepend_append del: lex.simps)
qed

subsection \<open>From the tokens to the value\<close>

lemma then_run_simps [simp]:
  "then_run ts None = None" "then_run ts (Some c) = run ts c"
  by (simp_all add: then_run_def)

lemma then_run_case [simp]: "(case r of None \<Rightarrow> None | Some c \<Rightarrow> run ts c) = then_run ts r"
  by (simp add: then_run_def)

lemma run_array_rest:
  assumes "\<And>x m st ts. x \<in> set ys \<Longrightarrow> m = PValue \<or> m = PFirstElem \<Longrightarrow>
             run (toks x @ ts) (m, st) = then_run ts (after_value x st)"
  shows "run (separated TComma (map toks ys) @ TRBrack # ts) (PAfter, ArrF acc # st)
         = then_run ts (after_value (JArr (acc @ ys)) st)"
  using assms
proof (induction ys arbitrary: acc)
  case Nil
  show ?case by simp
next
  case (Cons y ys)
  have "run (separated TComma (map toks (y # ys)) @ TRBrack # ts) (PAfter, ArrF acc # st)
        = run (toks y @ (separated TComma (map toks ys) @ TRBrack # ts)) (PValue, ArrF acc # st)"
    by simp
  also have "\<dots> = run (separated TComma (map toks ys) @ TRBrack # ts)
                      (PAfter, ArrF (acc @ [y]) # st)"
    using Cons.prems[of y PValue] by simp
  also have "\<dots> = then_run ts (after_value (JArr ((acc @ [y]) @ ys)) st)"
    by (rule Cons.IH) (rule Cons.prems, simp_all)
  finally show ?case by simp
qed

lemma run_object_rest:
  assumes "\<And>kv m st ts. kv \<in> set kvs \<Longrightarrow> m = PValue \<or> m = PFirstElem \<Longrightarrow>
             run (toks (snd kv) @ ts) (m, st) = then_run ts (after_value (snd kv) st)"
  shows "run (separated TComma (map (\<lambda>(k, v). TString k # TColon # toks v) kvs) @ TRBrace # ts)
             (PAfter, ObjF acc None # st)
         = then_run ts (after_value (JObj (build_object acc kvs)) st)"
  using assms
proof (induction kvs arbitrary: acc)
  case Nil
  show ?case by (simp add: build_object_def)
next
  case (Cons kv kvs)
  obtain k v where kv: "kv = (k, v)" by (cases kv)
  let ?g = "\<lambda>(k, v). TString k # TColon # toks v"
  have "run (separated TComma (map ?g (kv # kvs)) @ TRBrace # ts) (PAfter, ObjF acc None # st)
        = run (toks v @ (separated TComma (map ?g kvs) @ TRBrace # ts))
              (PValue, ObjF acc (Some k) # st)"
    unfolding kv by simp
  also have "\<dots> = run (separated TComma (map ?g kvs) @ TRBrace # ts)
                      (PAfter, ObjF (obj_set k v acc) None # st)"
    using Cons.prems[of kv PValue] kv by simp
  also have "\<dots> = then_run ts (after_value (JObj (build_object (obj_set k v acc) kvs)) st)"
    by (rule Cons.IH) (rule Cons.prems, simp_all)
  finally show ?case by (simp add: kv build_object_def)
qed

lemma run_value:
  "storable v \<Longrightarrow> m = PValue \<or> m = PFirstElem \<Longrightarrow>
   run (toks v @ ts) (m, st) = then_run ts (after_value v st)"
proof (induction v arbitrary: m st ts)
  case JNull
  then show ?case by auto
next
  case (JBool b)
  then show ?case by auto
next
  case (JNum n)
  then show ?case by simp
next
  case (JStr s)
  then show ?case by auto
next
  case (JArr xs)
  have elems: "run (toks x @ ts') (m', st') = then_run ts' (after_value x st')"
    if "x \<in> set xs" "m' = PValue \<or> m' = PFirstElem" for x m' st' ts'
    using JArr.IH[OF that(1) _ that(2)] JArr.prems(1) that(1) by simp
  have start: "run (toks (JArr xs) @ ts) (m, st)
               = run (commas TComma (map toks xs) @ TRBrack # ts) (PFirstElem, ArrF [] # st)"
    using JArr.prems(2) by auto
  show ?case
  proof (cases xs)
    case Nil
    then show ?thesis using start by simp
  next
    case (Cons y ys)
    have "run (commas TComma (map toks xs) @ TRBrack # ts) (PFirstElem, ArrF [] # st)
          = run (toks y @ (separated TComma (map toks ys) @ TRBrack # ts))
                (PFirstElem, ArrF [] # st)"
      using Cons by simp
    also have "\<dots> = run (separated TComma (map toks ys) @ TRBrack # ts)
                        (PAfter, ArrF [y] # st)"
      using elems[of y PFirstElem] Cons by simp
    also have "\<dots> = then_run ts (after_value (JArr ([y] @ ys)) st)"
      by (rule run_array_rest) (rule elems, simp_all add: Cons)
    finally show ?thesis using start Cons by simp
  qed
next
  case (JObj kvs)
  let ?g = "\<lambda>(k, v). TString k # TColon # toks v"
  have elems: "run (toks (snd kv) @ ts') (m', st') = then_run ts' (after_value (snd kv) st')"
    if "kv \<in> set kvs" "m' = PValue \<or> m' = PFirstElem" for kv m' st' ts'
  proof -
    have "storable (snd kv)" using JObj.prems(1) that(1) by auto
    moreover have "snd kv \<in> Basic_BNFs.snds kv" by (cases kv) simp
    ultimately show ?thesis using JObj.IH[OF that(1) _ _ that(2)] by blast
  qed
  have built: "build_object [] kvs = kvs" using JObj.prems(1) by simp
  have start: "run (toks (JObj kvs) @ ts) (m, st)
               = run (commas TComma (map ?g kvs) @ TRBrace # ts) (PFirstKey, ObjF [] None # st)"
    using JObj.prems(2) by auto
  show ?case
  proof (cases kvs)
    case Nil
    then show ?thesis using start by simp
  next
    case (Cons kv kvs')
    obtain k v where kv: "kv = (k, v)" by (cases kv)
    have "run (commas TComma (map ?g kvs) @ TRBrace # ts) (PFirstKey, ObjF [] None # st)
          = run (toks v @ (separated TComma (map ?g kvs') @ TRBrace # ts))
                (PValue, ObjF [] (Some k) # st)"
      using Cons kv by simp
    also have "\<dots> = run (separated TComma (map ?g kvs') @ TRBrace # ts)
                        (PAfter, ObjF (obj_set k v []) None # st)"
      using elems[of kv PValue] Cons kv by simp
    also have "\<dots> = then_run ts (after_value (JObj (build_object (obj_set k v []) kvs')) st)"
      by (rule run_object_rest) (rule elems, simp_all add: Cons)
    also have "build_object (obj_set k v []) kvs' = kvs"
      using built Cons kv by (simp add: build_object_def)
    finally show ?thesis using start by simp
  qed
qed

lemma JSON_parse_stringify: "storable v \<Longrightarrow> JSON_parse (JSON_stringify v) = Some v"
proof -
  assume v: "storable v"
  have "lex (JSON_stringify v @ []) = prepend (toks v) (lex [])"
    using v by (rule lex_value)
  then have "lex (JSON_stringify v) = Some (toks v)"
    by (simp add: prepend_def)
  moreover have "run (toks v @ []) (PValue, []) = then_run [] (after_value v [])"
    using v by (rule run_value) simp
  then have "parse_tokens (toks v) = Some v"
    by (simp add: parse_tokens_def)
  ultimately show ?thesis by (simp add: JSON_parse_def)
qed

section \<open>Properties of the comment panel\<close>

subsection \<open>Auxiliary facts\<close>

lemma ref_store_without_raw:
  "own_property v (ustr ''__v_raw'') = None \<Longrightarrow> ref_store v = v"
  by (simp add: ref_store_def toRaw.simps)

lemma ref_store_array [simp]: "ref_store (JArr xs) = JArr xs"
  by (simp add: ref_store_without_raw own_property_def)

lemma JSON_parse_empty: "JSON_parse [] = None"
  by (simp add: JSON_parse_def parse_tokens_def)

lemma JSON_stringify_nonempty: "storable v \<Longrightarrow> JSON_stringify v \<noteq> []"
  using JSON_parse_stringify[of v] JSON_parse_empty by auto

lemma obj_set_fresh:
  "k \<notin> fst ` set kvs \<Longrightarrow> array_index k = None \<Longrightarrow> obj_set k v kvs = kvs @ [(k, v)]"
  by (simp add: obj_set_def)

lemma build_object_fresh:
  "distinct (map fst (acc @ kvs)) \<Longrightarrow> \<forall>k \<in> fst ` set kvs. array_index k = None \<Longrightarrow>
   build_object acc kvs = acc @ kvs"
proof (induction kvs arbitrary: acc)
  case Nil
  show ?case by (simp add: build_object_def)
next
  case (Cons kv kvs)
  obtain k v where kv: "kv = (k, v)" by (cases kv)
  have "obj_set k v acc = acc @ [(k, v)]"
    using Cons.prems kv by (intro obj_set_fresh) auto
  moreover have "build_object (acc @ [(k, v)]) kvs = (acc @ [(k, v)]) @ kvs"
    using Cons.prems kv by (intro Cons.IH) auto
  ultimately show ?case by (simp add: build_object_def kv)
qed

lemma comment_keys:
  "distinct [ustr ''id'', ustr ''author'', ustr ''avatar'', ustr ''content'',
             ustr ''datetime'', ustr ''relativeTime'']"
  "\<forall>k \<in> set [ustr ''id'', ustr ''author'', ustr ''avatar'', ustr ''content'',
               ustr ''datetime'', ustr ''relativeTime'']. array_index k = None"
  by (simp_all add: ustr_def array_index_def is_digit_def)

lemma storable_comment_json: "storable (comment_json c)"
proof -
  obtain kvs where kvs: "comment_json c = JObj kvs"
    and keys: "distinct (map fst ([] @ kvs))" "\<forall>k \<in> fst ` set kvs. array_index k = None"
    and vals: "\<forall>(k, v) \<in> set kvs. storable v"
    using comment_keys by (cases "relativeTime c") (auto simp: comment_json_def)
  have "build_object [] kvs = [] @ kvs"
    using keys by (rule build_object_fresh)
  then show ?thesis using kvs vals by simp
qed

lemma storable_comments_json: "storable (comments_json cs)"
  by (simp add: comments_json_def storable_comment_json)

lemma comment_key_facts:
  "ustr ''id'' \<noteq> ustr ''author''"
  "ustr ''id'' \<noteq> ustr ''avatar''"
  "ustr ''id'' \<noteq> ustr ''content''"
  "ustr ''id'' \<noteq> ustr ''datetime''"
  "ustr ''id'' \<noteq> ustr ''relativeTime''"
  "ustr ''author'' \<noteq> ustr ''id''"
  "ustr ''author'' \<noteq> ustr ''avatar''"
  "ustr ''author'' \<noteq> ustr ''content''"
  "ustr ''author'' \<noteq> ustr ''datetime''"
  "ustr ''author'' \<noteq> ustr ''relativeTime''"
  "ustr ''avatar'' \<noteq> ustr ''id''"
  "ustr ''avatar'' \<noteq> ustr ''author''"
  "ustr ''avatar'' \<noteq> ustr ''content''"
  "ustr ''avatar'' \<noteq> ustr ''datetime''"
  "ustr ''avatar'' \<noteq> ustr ''relativeTime''"
  "ustr ''content'' \<noteq> ustr ''id''"
  "ustr ''content'' \<noteq> ustr ''author''"
  "ustr ''content'' \<noteq> ustr ''avatar''"
  "ustr ''content'' \<noteq> ustr ''datetime''"
  "ustr ''content'' \<noteq> ustr ''relativeTime''"
  "ustr ''datetime'' \<noteq> ustr ''id''"
  "ustr ''datetime'' \<noteq> ustr ''author''"
  "ustr ''datetime'' \<noteq> ustr ''avatar''"
  "ustr ''datetime'' \<noteq> ustr ''content''"
  "ustr ''datetime'' \<noteq> ustr ''relativeTime''"
  "ustr ''relativeTime'' \<noteq> ustr ''id''"
  "ustr ''relativeTime'' \<noteq> ustr ''author''"
  "ustr ''relativeTime'' \<noteq> ustr ''avatar''"
  "ustr ''relativeTime'' \<noteq> ustr ''content''"
  "ustr ''relativeTime'' \<noteq> ustr ''datetime''"
  "array_index (ustr ''relativeTime'') = None"
  using comment_keys by auto

lemma with_relativeTime_comment:
  "with_relativeTime fromNow (comment_json c)
   = Inr (comment_json (c\<lparr>relativeTime := Some (fromNow (Some (JStr (datetime c))))\<rparr>))"
  using comment_key_facts
  by (cases "relativeTime c")
     (simp_all add: with_relativeTime_def get_field_def own_entries_def comment_json_def
        obj_set_def)

lemma keeps_comment: "keeps cid (comment_json c) = Inr (comment_id c \<noteq> cid)"
  using comment_key_facts
  by (auto simp: keeps_def get_field_def comment_json_def)


lemma trim_hello: "trim (ustr ''hello'') \<noteq> []"
  by (simp add: trim_def ustr_def is_js_space_def)

lemma filter_result_comments:
  "filter_result (keeps cid) (map comment_json cs)
   = Inr (map comment_json (filter (\<lambda>c. comment_id c \<noteq> cid) cs))"
  by (induction cs) (simp_all add: keeps_comment)

lemma map_result_comments:
  "map_result (with_relativeTime fromNow) (map comment_json cs)
   = Inr (map comment_json
            (map (\<lambda>c. c\<lparr>relativeTime := Some (fromNow (Some (JStr (datetime c))))\<rparr>) cs))"
  by (induction cs) (simp_all add: with_relativeTime_comment)

lemma getStoredComments_cases:
  "getStoredComments st =
     (case storage st (ustr ''comments_'' @ postId st) of
        None \<Rightarrow> Inr (JArr [])
      | Some saved \<Rightarrow>
          if saved = [] then Inr (JArr [])
          else (case JSON_parse saved of None \<Rightarrow> Inl SyntaxError | Some v \<Rightarrow> Inr v))"
  by (simp add: getStoredComments_def storage_key_def)


lemma load_saved:
  assumes "storage st (ustr ''comments_'' @ postId st) = Some (JSON_stringify (comments_json cs))"
  shows "getStoredComments st = Inr (comments_json cs)"
  using assms JSON_stringify_nonempty[OF storable_comments_json[of cs]]
    JSON_parse_stringify[OF storable_comments_json[of cs]]
  by (simp add: getStoredComments_cases del: JSON_stringify.simps)

lemma example_entry_text: "JSON_stringify (comments_json [example_comment]) = example_entry"
  by (simp add: comments_json_def comment_json_def example_comment_def example_entry_def
        in_quotes_def quote_def ustr_def is_lead_def is_trail_def)


lemma handleDelete_resume_fulfilled:
  assumes "comments st = comments_json cs"
  shows "handleDelete_resume commentId (Fulfilled ()) st =
         st\<lparr>comments := comments_json (filter (\<lambda>c. comment_id c \<noteq> commentId) cs),
            storage := (storage st)(ustr ''comments_'' @ postId st \<mapsto>
              JSON_stringify (comments_json (filter (\<lambda>c. comment_id c \<noteq> commentId) cs))),
            effects := effects st @
              [SetItem (ustr ''comments_'' @ postId st)
                 (JSON_stringify (comments_json (filter (\<lambda>c. comment_id c \<noteq> commentId) cs)))]\<rparr>"
  using assms
  by (simp add: handleDelete_resume_def comments_json_def filter_result_comments
        saveCommentsToStorage_def emit_def storage_key_def Let_def del: JSON_stringify.simps)

lemma filter_unknown:
  "commentId \<notin> set (map comment_id cs) \<Longrightarrow> filter (\<lambda>c. comment_id c \<noteq> commentId) cs = cs"
  by (induction cs) auto

subsection \<open>Submitting\<close>

text \<open>
  Claim C8. \<open>submitting\<close> becomes true only once the draft is not blank and a user
  id is present; every way out of the pending request, fulfilled or rejected, sets it
  back to false; a call that stops at the blank draft or at the missing identity leaves
  the flag as it was.
\<close>

theorem submitting_flag:
  "(trim (value' st) = [] \<longrightarrow> handleSubmit_begin st = Returned st)
   \<and> (trim (value' st) \<noteq> [] \<and> userId st = [] \<longrightarrow>
        handleSubmit_begin st = Returned (emit [LoginPrompt] st)
        \<and> submitting (emit [LoginPrompt] st) = submitting st)
   \<and> (trim (value' st) \<noteq> [] \<and> userId st \<noteq> [] \<longrightarrow>
        (\<exists>st'. handleSubmit_begin st = Awaiting st' \<and> submitting st'))
   \<and> \<not> submitting (handleSubmit_resume fullName outcome st)
   \<and> submitting (handleSubmit fullName outcome st)
       = (if trim (value' st) = [] \<or> userId st = [] then submitting st else False)"
  by (cases outcome)
     (auto simp: handleSubmit_def handleSubmit_begin_def handleSubmit_resume_def emit_def
        saveCommentsToStorage_def Let_def split: sum.splits)

theorem submitting_flag_witness:
  "trim (value' example_panel) \<noteq> [] \<and> userId example_panel \<noteq> []
   \<and> (\<exists>st'. handleSubmit_begin example_panel = Awaiting st' \<and> submitting st')
   \<and> \<not> submitting (handleSubmit None (Fulfilled example_response) example_panel)"
proof -
  have h: "trim (value' example_panel) \<noteq> []" "userId example_panel \<noteq> []"
    using trim_hello by (simp_all add: example_panel_def ustr_def)
  show ?thesis
    using h submitting_flag[where st = example_panel and fullName = None and outcome = "Fulfilled example_response"]
    by simp
qed

text \<open>
  Claim C3, as amended. Without a user id \<open>handleSubmit\<close> changes neither the
  comments nor the cache, the draft or the flag, and issues no remote call: all it does
  is show the login prompt, and that only when the draft is not blank, since the blank
  draft is checked first and returns silently.
\<close>

theorem submit_without_identity:
  assumes "userId st = []"
  shows "let st' = handleSubmit fullName outcome st
         in comments st' = comments st \<and> storage st' = storage st
          \<and> value' st' = value' st \<and> submitting st' = submitting st
          \<and> effects st' = effects st @ (if trim (value' st) = [] then [] else [LoginPrompt])"
  using assms by (simp add: handleSubmit_def handleSubmit_begin_def emit_def)

theorem submit_without_identity_witness:
  "userId (example_panel\<lparr>userId := []\<rparr>) = []
   \<and> comments (handleSubmit None (Fulfilled example_response) (example_panel\<lparr>userId := []\<rparr>))
       = JArr []
   \<and> effects (handleSubmit None (Fulfilled example_response) (example_panel\<lparr>userId := []\<rparr>))
       = [LoginPrompt]"
proof -
  have h: "userId (example_panel\<lparr>userId := []\<rparr>) = []" by simp
  show ?thesis
    using h submit_without_identity[OF h, where fullName = None and outcome = "Fulfilled example_response"] trim_hello
    by (simp add: Let_def example_panel_def)
qed

text \<open>
  The claim as first stated promised the login prompt in every state without a user
  id. With a draft of two spaces and no user id the call returns before the identity
  check, and no prompt is shown.
\<close>

theorem submit_blank_draft_no_prompt:
  "userId anonymous_blank_panel = []
   \<and> LoginPrompt \<notin> set (effects (handleSubmit None (Fulfilled example_response)
                                     anonymous_blank_panel))"
  by (simp add: anonymous_blank_panel_def example_panel_def handleSubmit_def
        handleSubmit_begin_def trim_def ustr_def is_js_space_def)

text \<open>
  Claim C4. When the remote call is rejected, the comments, the cache and the draft
  are what they were before the call; the failure is logged and reported by an alert,
  and the remote call is issued once, never again.
\<close>

theorem remote_failure_leaves_state:
  "(let st' = handleSubmit_resume fullName Rejected st
    in comments st' = comments st \<and> storage st' = storage st \<and> value' st' = value' st
     \<and> effects st' = effects st @ [ConsoleError, AlertSubmitFailed])
   \<and> (let st' = handleSubmit fullName Rejected st
      in comments st' = comments st \<and> storage st' = storage st \<and> value' st' = value' st
       \<and> (trim (value' st) \<noteq> [] \<and> userId st \<noteq> [] \<longrightarrow>
            effects st' = effects st @
              [CreateCommentCall (postId st) (value' st) (token st),
               ConsoleError, AlertSubmitFailed]))
   \<and> (let st' = handleDelete_resume commentId Rejected st
      in comments st' = comments st \<and> storage st' = storage st \<and> value' st' = value' st
       \<and> effects st' = effects st @ [ConsoleError, AlertDeleteFailed])
   \<and> (let st' = handleDelete commentId True Rejected st
      in comments st' = comments st \<and> storage st' = storage st \<and> value' st' = value' st
       \<and> effects st' = effects st @
            [ConfirmDelete, DeleteCommentCall commentId (token st),
             ConsoleError, AlertDeleteFailed])"
  by (simp add: handleSubmit_def handleSubmit_begin_def handleSubmit_resume_def
        handleDelete_def handleDelete_begin_def handleDelete_resume_def emit_def)

theorem remote_failure_leaves_state_witness:
  "trim (value' example_panel) \<noteq> [] \<and> userId example_panel \<noteq> []
   \<and> comments (handleSubmit None Rejected example_panel) = JArr []
   \<and> storage (handleSubmit None Rejected example_panel) = Map.empty
   \<and> value' (handleSubmit None Rejected example_panel) = ustr ''hello''
   \<and> effects (handleSubmit None Rejected example_panel)
       = [CreateCommentCall (ustr ''42'') (ustr ''hello'') (ustr ''secret''),
          ConsoleError, AlertSubmitFailed]"
proof -
  have h: "trim (value' example_panel) \<noteq> []" "userId example_panel \<noteq> []"
    using trim_hello by (simp_all add: example_panel_def ustr_def)
  show ?thesis
    using h remote_failure_leaves_state[where fullName = None and st = example_panel]
    by (simp add: Let_def example_panel_def)
qed



subsection \<open>The cache\<close>

text \<open>
  Claim C2. Writing a list of comments to the cache stores its serialisation under
  \<open>comments_\<close> followed by the post id, and a load for that post then returns exactly
  that list, in the same order and with the same content, whatever the memory holds at
  the time of the load; a load for another post is what it was before.
\<close>

theorem cache_roundtrip:
  "let saved = saveCommentsToStorage (st\<lparr>comments := comments_json cs\<rparr>);
       key = ustr ''comments_'' @ postId st
   in storage saved = (storage st)(key \<mapsto> JSON_stringify (comments_json cs))
    \<and> postId saved = postId st
    \<and> getStoredComments (saved\<lparr>comments := other\<rparr>) = Inr (comments_json cs)
    \<and> (q \<noteq> postId st \<longrightarrow>
          getStoredComments (saved\<lparr>postId := q, comments := other\<rparr>)
          = getStoredComments (st\<lparr>postId := q\<rparr>))"
proof -
  let ?saved = "saveCommentsToStorage (st\<lparr>comments := comments_json cs\<rparr>)"
  let ?key = "ustr ''comments_'' @ postId st"
  have st: "storage ?saved = (storage st)(?key \<mapsto> JSON_stringify (comments_json cs))"
    "postId ?saved = postId st"
    by (simp_all add: saveCommentsToStorage_def emit_def storage_key_def Let_def
          del: JSON_stringify.simps)
  have load: "getStoredComments (?saved\<lparr>comments := other\<rparr>) = Inr (comments_json cs)"
    by (rule load_saved) (simp add: st del: JSON_stringify.simps)
  have other: "getStoredComments (?saved\<lparr>postId := q, comments := other\<rparr>)
               = getStoredComments (st\<lparr>postId := q\<rparr>)" if "q \<noteq> postId st"
    using that by (simp add: getStoredComments_cases st)
  show ?thesis
    unfolding Let_def using st load other by blast
qed

theorem cache_roundtrip_witness:
  "storage (saveCommentsToStorage (example_panel\<lparr>comments := comments_json [example_comment]\<rparr>))
     (ustr ''comments_42'') = Some example_entry
   \<and> storage (saveCommentsToStorage (example_panel\<lparr>comments := comments_json [example_comment]\<rparr>))
     (ustr ''comments_43'') = None
   \<and> getStoredComments
       ((saveCommentsToStorage (example_panel\<lparr>comments := comments_json [example_comment]\<rparr>))
          \<lparr>comments := JArr []\<rparr>)
     = Inr (comments_json [example_comment])
   \<and> getStoredComments
       ((saveCommentsToStorage (example_panel\<lparr>comments := comments_json [example_comment]\<rparr>))
          \<lparr>postId := ustr ''43'', comments := comments_json [second_comment]\<rparr>)
     = Inr (JArr [])"
proof -
  have k: "ustr ''comments_'' @ postId example_panel = ustr ''comments_42''"
    "ustr ''comments_43'' \<noteq> ustr ''comments_42''" "ustr ''43'' \<noteq> postId example_panel"
    by (simp_all add: example_panel_def ustr_def)
  have s: "storage example_panel = Map.empty"
    by (simp add: example_panel_def)
  have e: "getStoredComments (example_panel\<lparr>postId := ustr ''43''\<rparr>) = Inr (JArr [])"
    by (simp add: getStoredComments_def example_panel_def)
  show ?thesis
    using cache_roundtrip[where st = example_panel and cs = "[example_comment]"
        and other = "JArr []" and q = "ustr ''43''"]
      cache_roundtrip[where st = example_panel and cs = "[example_comment]"
        and other = "comments_json [second_comment]" and q = "ustr ''43''"]
    unfolding Let_def k s e example_entry_text
    by (simp add: k del: JSON_stringify.simps)
qed




subsection \<open>Deleting\<close>



text \<open>
  Claim C6, as amended. When no comment of the list has the given id, the list is the
  same after \<open>handleDelete\<close>, whatever the answer to the confirmation and whatever the
  outcome of the request. The call is not without effect, though: once confirmed, the
  delete request is sent all the same; when it fails, the failure is logged and an alert
  shown; when it succeeds, the unchanged list is written to the cache entry of the post
  again, which creates the entry when there was none.
\<close>

theorem delete_unknown_id:
  assumes "comments st = comments_json cs" and "commentId \<notin> set (map comment_id cs)"
  shows "let key = ustr ''comments_'' @ postId st;
             text = JSON_stringify (comments_json cs);
             call = DeleteCommentCall commentId (token st)
         in comments (handleDelete_resume commentId outcome st) = comments_json cs
          \<and> comments (handleDelete commentId confirmed outcome st) = comments_json cs
          \<and> handleDelete commentId False outcome st = emit [ConfirmDelete] st
          \<and> handleDelete commentId True Rejected st
              = emit [ConfirmDelete, call, ConsoleError, AlertDeleteFailed] st
          \<and> handleDelete_resume commentId (Fulfilled ()) st
              = st\<lparr>storage := (storage st)(key \<mapsto> text),
                    effects := effects st @ [SetItem key text]\<rparr>
          \<and> handleDelete commentId True (Fulfilled ()) st
              = st\<lparr>storage := (storage st)(key \<mapsto> text),
                    effects := effects st @ [ConfirmDelete, call, SetItem key text]\<rparr>"
proof -
  let ?key = "ustr ''comments_'' @ postId st"
  let ?text = "JSON_stringify (comments_json cs)"
  let ?call = "DeleteCommentCall commentId (token st)"
  let ?pending = "emit [ConfirmDelete, ?call] st"
  note same = filter_unknown[OF assms(2)]
  have pending: "comments ?pending = comments_json cs"
    using assms(1) by (simp add: emit_def)
  have fulfilled: "handleDelete_resume commentId (Fulfilled ()) st
                   = st\<lparr>storage := (storage st)(?key \<mapsto> ?text),
                         effects := effects st @ [SetItem ?key ?text]\<rparr>"
    using handleDelete_resume_fulfilled[OF assms(1), of commentId] assms(1)
    unfolding same by simp
  have rejected: "handleDelete_resume commentId Rejected s = emit [ConsoleError, AlertDeleteFailed] s"
    for s
    by (simp add: handleDelete_resume_def)
  have resume: "comments (handleDelete_resume commentId outcome st) = comments_json cs"
  proof (cases outcome)
    case (Fulfilled u)
    then show ?thesis using fulfilled assms(1) by simp
  next
    case Rejected
    then show ?thesis using rejected assms(1) by (simp add: emit_def)
  qed
  have declined: "handleDelete commentId False outcome st = emit [ConfirmDelete] st"
    by (simp add: handleDelete_def handleDelete_begin_def)
  have failed: "handleDelete commentId True Rejected st
                = emit [ConfirmDelete, ?call, ConsoleError, AlertDeleteFailed] st"
    by (simp add: handleDelete_def handleDelete_begin_def rejected emit_def)
  have succeeded: "handleDelete commentId True (Fulfilled ()) st
              = st\<lparr>storage := (storage st)(?key \<mapsto> ?text),
                    effects := effects st @ [ConfirmDelete, ?call, SetItem ?key ?text]\<rparr>"
    using handleDelete_resume_fulfilled[OF pending, of commentId]
    unfolding same
    by (simp add: handleDelete_def handleDelete_begin_def del: JSON_stringify.simps)
       (simp add: emit_def assms(1)[symmetric])
  have whole: "comments (handleDelete commentId confirmed outcome st) = comments_json cs"
  proof (cases confirmed)
    case False
    then show ?thesis using declined assms(1) by (simp add: emit_def)
  next
    case True
    show ?thesis
    proof (cases outcome)
      case (Fulfilled u)
      then show ?thesis using True succeeded assms(1) by simp
    next
      case Rejected
      then show ?thesis using True failed assms(1) by (simp add: emit_def)
    qed
  qed
  show ?thesis
    unfolding Let_def
    using resume whole declined failed fulfilled succeeded by blast
qed

theorem delete_unknown_id_witness:
  "comments (example_panel\<lparr>comments := comments_json [example_comment]\<rparr>)
     = comments_json [example_comment]
   \<and> ustr ''c9'' \<notin> set (map comment_id [example_comment])
   \<and> comments (handleDelete (ustr ''c9'') True (Fulfilled ())
        (example_panel\<lparr>comments := comments_json [example_comment]\<rparr>))
     = comments_json [example_comment]
   \<and> comments (handleDelete_resume (ustr ''c9'') Rejected
        (example_panel\<lparr>comments := comments_json [example_comment]\<rparr>))
     = comments_json [example_comment]
   \<and> handleDelete (ustr ''c9'') True (Fulfilled ())
        (example_panel\<lparr>comments := comments_json [example_comment]\<rparr>)
     = example_panel\<lparr>comments := comments_json [example_comment],
         storage := [ustr ''comments_42'' \<mapsto> example_entry],
         effects := [ConfirmDelete, DeleteCommentCall (ustr ''c9'') (ustr ''secret''),
                     SetItem (ustr ''comments_42'') example_entry]\<rparr>"
proof -
  let ?st = "example_panel\<lparr>comments := comments_json [example_comment]\<rparr>"
  have h: "comments ?st = comments_json [example_comment]"
    "ustr ''c9'' \<notin> set (map comment_id [example_comment])"
    by (simp_all add: example_comment_def ustr_def)
  have k: "ustr ''comments_'' @ postId ?st = ustr ''comments_42''"
    by (simp add: example_panel_def ustr_def)
  have t: "token ?st = ustr ''secret''" "storage ?st = Map.empty" "effects ?st = []"
    by (simp_all add: example_panel_def)
  show ?thesis
    using h delete_unknown_id[OF h, where outcome = "Fulfilled ()" and confirmed = True]
      delete_unknown_id[OF h, where outcome = Rejected and confirmed = True]
    unfolding Let_def k t example_entry_text
    by (simp del: JSON_stringify.simps)
qed

text \<open>
  The claim as first stated calls the deletion of an unknown id a no-op. With the one
  comment \<open>c1\<close> on display and an empty cache, deleting the id \<open>c9\<close> leaves the list
  as it is, but the delete request for \<open>c9\<close> is sent and, once it is fulfilled, the
  cache has an entry for the post that it did not have before.
\<close>

theorem delete_unknown_id_writes:
  "ustr ''c9'' \<notin> set (map comment_id [example_comment])
   \<and> storage (example_panel\<lparr>comments := comments_json [example_comment]\<rparr>)
       (ustr ''comments_42'') = None
   \<and> storage (handleDelete (ustr ''c9'') True (Fulfilled ())
        (example_panel\<lparr>comments := comments_json [example_comment]\<rparr>))
       (ustr ''comments_42'') = Some example_entry
   \<and> effects (handleDelete (ustr ''c9'') True (Fulfilled ())
        (example_panel\<lparr>comments := comments_json [example_comment]\<rparr>))
     = [ConfirmDelete, DeleteCommentCall (ustr ''c9'') (ustr ''secret''),
        SetItem (ustr ''comments_42'') example_entry]
   \<and> handleDelete (ustr ''c9'') True (Fulfilled ())
        (example_panel\<lparr>comments := comments_json [example_comment]\<rparr>)
     \<noteq> example_panel\<lparr>comments := comments_json [example_comment]\<rparr>"
proof -
  let ?st = "example_panel\<lparr>comments := comments_json [example_comment]\<rparr>"
  have h: "ustr ''c9'' \<notin> set (map comment_id [example_comment])"
    by (simp add: example_comment_def ustr_def)
  have pending: "comments (emit [ConfirmDelete, DeleteCommentCall (ustr ''c9'') (token ?st)] ?st)
                 = comments_json [example_comment]"
    by (simp add: emit_def)
  have f: "filter (\<lambda>c. comment_id c \<noteq> ustr ''c9'') [example_comment] = [example_comment]"
    using h by (rule filter_unknown)
  have run: "handleDelete (ustr ''c9'') True (Fulfilled ()) ?st
             = example_panel\<lparr>comments := comments_json [example_comment],
                 storage := [ustr ''comments_42'' \<mapsto> example_entry],
                 effects := [ConfirmDelete, DeleteCommentCall (ustr ''c9'') (ustr ''secret''),
                             SetItem (ustr ''comments_42'') example_entry]\<rparr>"
    using handleDelete_resume_fulfilled[OF pending, of "ustr ''c9''"]
    unfolding f example_entry_text
    by (simp add: handleDelete_def handleDelete_begin_def)
       (simp add: emit_def example_panel_def ustr_def)
  have s: "storage ?st (ustr ''comments_42'') = None"
    by (simp add: example_panel_def)
  have "storage (handleDelete (ustr ''c9'') True (Fulfilled ()) ?st) \<noteq> storage ?st"
    unfolding run by (simp add: example_panel_def fun_eq_iff)
  then have ne: "handleDelete (ustr ''c9'') True (Fulfilled ()) ?st \<noteq> ?st"
    by metis
  show ?thesis
    using h s ne unfolding run by simp
qed

subsection \<open>Changing the post\<close>

text \<open>
  Claim C7, as amended. When \<open>postId\<close> changes to a new, non-empty value, the watcher
  loads the entry stored under \<open>comments_\<close> followed by the new id. When there is no
  such entry, or the entry is the empty text, the list becomes empty; when the entry is
  the serialisation of a list of comments, the list becomes exactly that list; in
  general, when the entry parses, the list becomes the raw value of what was parsed.
  Nothing of the previous post's list remains in these cases. When the entry is a
  non-empty text that does not parse, the load throws, nothing catches the error, and
  the list of the previous post stays on display under the new id.
\<close>

theorem postId_change_reloads:
  assumes "newPostId \<noteq> []" and "newPostId \<noteq> postId st"
  shows "let entry = storage st (ustr ''comments_'' @ newPostId);
             st' = watch_postId newPostId st
         in postId st' = newPostId
          \<and> storage st' = storage st
          \<and> (entry = None \<longrightarrow> comments st' = JArr [])
          \<and> (entry = Some [] \<longrightarrow> comments st' = JArr [])
          \<and> (\<forall>cs. entry = Some (JSON_stringify (comments_json cs)) \<longrightarrow>
                 comments st' = comments_json cs)
          \<and> (\<forall>s v. entry = Some s \<and> s \<noteq> [] \<and> JSON_parse s = Some v \<longrightarrow>
                 comments st' = ref_store v)
          \<and> (\<forall>s. entry = Some s \<and> s \<noteq> [] \<and> JSON_parse s = None \<longrightarrow>
                 comments st' = comments st
                 \<and> st' = emit [Uncaught SyntaxError] (st\<lparr>postId := newPostId\<rparr>))"
proof -
  let ?entry = "storage st (ustr ''comments_'' @ newPostId)"
  let ?st' = "watch_postId newPostId st"
  let ?moved = "st\<lparr>postId := newPostId\<rparr>"
  have w: "?st' = (case getStoredComments ?moved of
                     Inl e \<Rightarrow> emit [Uncaught e] ?moved
                   | Inr v \<Rightarrow> ?moved\<lparr>comments := ref_store v\<rparr>)"
    using assms by (simp add: watch_postId_def Let_def)
  have g: "getStoredComments ?moved =
             (case ?entry of
                None \<Rightarrow> Inr (JArr [])
              | Some saved \<Rightarrow>
                  if saved = [] then Inr (JArr [])
                  else (case JSON_parse saved of None \<Rightarrow> Inl SyntaxError | Some v \<Rightarrow> Inr v))"
    by (simp add: getStoredComments_cases)
  have frame: "postId ?st' = newPostId" "storage ?st' = storage st"
    unfolding w by (simp_all add: emit_def split: sum.splits)
  have absent: "comments ?st' = JArr []" if "?entry = None"
    unfolding w g using that by simp
  have empty: "comments ?st' = JArr []" if "?entry = Some []"
    unfolding w g using that by simp
  have typed: "comments ?st' = comments_json cs"
    if "?entry = Some (JSON_stringify (comments_json cs))" for cs
  proof -
    have "getStoredComments ?moved = Inr (comments_json cs)"
      by (rule load_saved) (simp add: that del: JSON_stringify.simps)
    then show ?thesis
      unfolding w by (simp add: comments_json_def)
  qed
  have parsed: "comments ?st' = ref_store v"
    if "?entry = Some s \<and> s \<noteq> [] \<and> JSON_parse s = Some v" for s v
    unfolding w g using that by simp
  have invalid: "comments ?st' = comments st
                 \<and> ?st' = emit [Uncaught SyntaxError] ?moved"
    if "?entry = Some s \<and> s \<noteq> [] \<and> JSON_parse s = None" for s
    unfolding w g using that by (simp add: emit_def)
  show ?thesis
    unfolding Let_def
    using frame absent empty typed parsed invalid by blast
qed

theorem postId_change_reloads_witness:
  "ustr ''43'' \<noteq> [] \<and> ustr ''43'' \<noteq> postId two_posts_panel
   \<and> ustr ''44'' \<noteq> [] \<and> ustr ''44'' \<noteq> postId two_posts_panel
   \<and> comments two_posts_panel = comments_json [second_comment]
   \<and> storage two_posts_panel (ustr ''comments_43'') = Some example_entry
   \<and> storage two_posts_panel (ustr ''comments_44'') = None
   \<and> comments (watch_postId (ustr ''43'') two_posts_panel) = comments_json [example_comment]
   \<and> comments (watch_postId (ustr ''44'') two_posts_panel) = JArr []
   \<and> postId (watch_postId (ustr ''43'') two_posts_panel) = ustr ''43''"
proof -
  have h: "ustr ''43'' \<noteq> []" "ustr ''43'' \<noteq> postId two_posts_panel"
    and h': "ustr ''44'' \<noteq> []" "ustr ''44'' \<noteq> postId two_posts_panel"
    by (simp_all add: two_posts_panel_def example_panel_def ustr_def)
  have k: "ustr ''comments_'' @ ustr ''43'' = ustr ''comments_43''"
    "ustr ''comments_'' @ ustr ''44'' = ustr ''comments_44''"
    by (simp_all add: ustr_def)
  have s: "storage two_posts_panel (ustr ''comments_43'')
           = Some (JSON_stringify (comments_json [example_comment]))"
    "storage two_posts_panel (ustr ''comments_44'') = None"
    "comments two_posts_panel = comments_json [second_comment]"
    unfolding example_entry_text
    by (simp_all add: two_posts_panel_def ustr_def)
  show ?thesis
    using h h' s postId_change_reloads[OF h] postId_change_reloads[OF h']
    unfolding Let_def k example_entry_text[symmetric]
    by (simp del: JSON_stringify.simps)
qed

text \<open>
  The claim as first stated has the list become the cached sequence of the new post at
  every change. With the comment \<open>c1\<close> of post \<open>42\<close> on display and the entry of post
  \<open>43\<close> a lone opening brace, the change to \<open>43\<close> leaves \<open>c1\<close> on display: the
  load throws and the list is not replaced.
\<close>

theorem postId_change_keeps_previous_list:
  "postId broken_entry_panel = ustr ''42''
   \<and> comments broken_entry_panel = comments_json [example_comment]
   \<and> storage broken_entry_panel (ustr ''comments_43'') = Some (ustr ''{'')
   \<and> JSON_parse (ustr ''{'') = None
   \<and> postId (watch_postId (ustr ''43'') broken_entry_panel) = ustr ''43''
   \<and> comments (watch_postId (ustr ''43'') broken_entry_panel) = comments_json [example_comment]
   \<and> effects (watch_postId (ustr ''43'') broken_entry_panel) = [Uncaught SyntaxError]"
proof -
  have p: "JSON_parse (ustr ''{'') = None"
    by code_simp
  have k: "ustr ''comments_'' @ ustr ''43'' = ustr ''comments_43''"
    "ustr ''43'' \<noteq> ustr ''42''" "ustr ''43'' \<noteq> []" "ustr ''{'' \<noteq> []"
    "ustr ''comments_43'' \<noteq> ustr ''comments_42''"
    by (simp_all add: ustr_def)
  have g: "getStoredComments (broken_entry_panel\<lparr>postId := ustr ''43''\<rparr>) = Inl SyntaxError"
    by (simp add: getStoredComments_cases broken_entry_panel_def k p)
  show ?thesis
    by (simp add: watch_postId_def g p k emit_def)
       (simp add: broken_entry_panel_def example_panel_def k)
qed

subsection \<open>The timer\<close>

text \<open>
  Claim C9. A tick of the timer, which runs every 60 seconds, gives every comment a
  fresh \<open>relativeTime\<close> label computed from its \<open>datetime\<close> and changes nothing
  else: id, author, avatar, content and datetime stay, the cache is not written and no
  call or dialog is issued.
\<close>

theorem tick_recomputes_label_only:
  assumes "comments st = comments_json cs"
  shows "tick fromNow st
         = st\<lparr>comments := comments_json
               (map (\<lambda>c. c\<lparr>relativeTime := Some (fromNow (Some (JStr (datetime c))))\<rparr>) cs)\<rparr>
       \<and> storage (tick fromNow st) = storage st
       \<and> effects (tick fromNow st) = effects st
       \<and> refresh_interval_ms = 60 * 1000"
  using assms
  by (simp add: tick_def comments_json_def map_result_comments refresh_interval_ms_def)

theorem tick_recomputes_label_only_witness:
  "comments (example_panel\<lparr>comments := comments_json [example_comment]\<rparr>)
     = comments_json [example_comment]
   \<and> comments (tick (\<lambda>d. ustr ''now'') (example_panel\<lparr>comments := comments_json [example_comment]\<rparr>))
     = comments_json [example_comment\<lparr>relativeTime := Some (ustr ''now'')\<rparr>]"
proof -
  have h: "comments (example_panel\<lparr>comments := comments_json [example_comment]\<rparr>)
           = comments_json [example_comment]" by simp
  show ?thesis
    using h tick_recomputes_label_only[OF h, where fromNow = "\<lambda>d. ustr ''now''"]
    by simp
qed

end
